theory Spec2Isabelle
  imports Main
begin

section \<open>JavaScript strings and the built-ins the scripts call\<close>

text \<open>
  A JavaScript string is a sequence of UTF-16 code units, each a number below \<open>2\<^sup>1\<^sup>6\<close>.
  The scripts do no arithmetic on units, so a unit is a natural number and nothing wraps.
  Every character the two scripts compare against lies in the Basic Multilingual Plane, so
  it is one unit: the comma, the double quote, the line feed, the hyphen (U+002D) and the
  em dash (U+2014).
  A value that may be \<^verbatim>\<open>undefined\<close> (a property that a row does not have) is a
  \<open>jstring option\<close>, with \<open>None\<close> for \<^verbatim>\<open>undefined\<close>.
\<close>

type_synonym jschar = nat
type_synonym jstring = "jschar list"

text \<open>An ASCII literal of the source, unit by unit.\<close>

definition ascii :: "string \<Rightarrow> jstring" where
  "ascii s = map of_char s"

definition dquote :: jschar where "dquote = 0x22"
definition comma :: jschar where "comma = 0x2C"
definition newline :: jschar where "newline = 0x0A"

text \<open>
  \<^verbatim>\<open>String.prototype.trim\<close> removes white space and line terminators from both ends:
  TAB, LF, VT, FF, CR, SP, NBSP, U+1680, U+2000..U+200A, U+2028, U+2029, U+202F, U+205F,
  U+3000 and U+FEFF.
\<close>

definition isWhiteSpace :: "jschar \<Rightarrow> bool" where
  "isWhiteSpace c \<longleftrightarrow>
     c = 0x09 \<or> c = 0x0A \<or> c = 0x0B \<or> c = 0x0C \<or> c = 0x0D \<or> c = 0x20 \<or> c = 0xA0 \<or>
     c = 0x1680 \<or> (0x2000 \<le> c \<and> c \<le> 0x200A) \<or> c = 0x2028 \<or> c = 0x2029 \<or>
     c = 0x202F \<or> c = 0x205F \<or> c = 0x3000 \<or> c = 0xFEFF"

definition trim :: "jstring \<Rightarrow> jstring" where
  "trim s = rev (dropWhile isWhiteSpace (rev (dropWhile isWhiteSpace s)))"

text \<open>
  \<^verbatim>\<open>String.prototype.toUpperCase\<close>. The model is exact on ASCII. Units outside ASCII are
  left as they are: the Unicode case tables map none of them to the one-unit strings
  \<^verbatim>\<open>P\<close>, \<^verbatim>\<open>A\<close> or \<^verbatim>\<open>U\<close>, which is all that \<^verbatim>\<open>mapVoice\<close> asks of the result.
\<close>

definition toUpperCase_unit :: "jschar \<Rightarrow> jschar" where
  "toUpperCase_unit c = (if 0x61 \<le> c \<and> c \<le> 0x7A then c - 0x20 else c)"

definition toUpperCase :: "jstring \<Rightarrow> jstring" where
  "toUpperCase s = map toUpperCase_unit s"

text \<open>
  \<^verbatim>\<open>String(index + 1)\<close> for an array index: the decimal digits of a positive integer,
  without leading zeros (JavaScript prints integers below \<open>10\<^sup>2\<^sup>1\<close> this way).
\<close>

definition digit_unit :: "nat \<Rightarrow> jschar" where
  "digit_unit d = 48 + d"

fun String_nat :: "nat \<Rightarrow> jstring" where
  "String_nat n =
     (if n < 10 then [digit_unit n] else String_nat (n div 10) @ [digit_unit (n mod 10)])"

declare String_nat.simps [simp del]


section \<open>Field mapper\<close>

text \<open>
  The conversion script and the import migration each carry their own copy of the helpers. The script's copies return the empty string
  where the migration's return \<^verbatim>\<open>undefined\<close>; the migration's copies carry the suffix
  \<open>_mig\<close>.

  \<^verbatim>\<open>!text\<close> holds of \<^verbatim>\<open>undefined\<close> and of the empty string.
\<close>

definition cleanText :: "jstring option \<Rightarrow> jstring" where
  "cleanText text =
     (case text of
        None \<Rightarrow> []
      | Some t \<Rightarrow>
          if t = [] \<or> t = [0x2014] \<or> t = [0x2D] \<or> trim t = [] then [] else trim t)"

definition cleanText_mig :: "jstring option \<Rightarrow> jstring option" where
  "cleanText_mig text =
     (case text of
        None \<Rightarrow> None
      | Some t \<Rightarrow>
          if t = [] \<or> t = [0x2014] \<or> t = [0x2D] \<or> trim t = [] then None else Some (trim t))"

text \<open>\<^verbatim>\<open>pada?.toUpperCase()\<close> is \<^verbatim>\<open>undefined\<close> when \<^verbatim>\<open>pada\<close> is.\<close>

definition mapVoice :: "jstring option \<Rightarrow> jstring" where
  "mapVoice pada =
     (let padaUpper = map_option toUpperCase pada in
      if padaUpper = Some (ascii ''P'') then ascii ''parasmaipada''
      else if padaUpper = Some (ascii ''A'') then ascii ''atmanepada''
      else if padaUpper = Some (ascii ''U'') then ascii ''ubhayapada''
      else [])"

definition mapVoice_mig :: "jstring option \<Rightarrow> jstring option" where
  "mapVoice_mig pada =
     (let padaUpper = map_option toUpperCase pada in
      if padaUpper = Some (ascii ''P'') then Some (ascii ''parasmaipada'')
      else if padaUpper = Some (ascii ''A'') then Some (ascii ''atmanepada'')
      else if padaUpper = Some (ascii ''U'') then Some (ascii ''ubhayapada'')
      else None)"

definition mapGender :: "jstring option \<Rightarrow> jstring" where
  "mapGender linga =
     (if linga = Some (ascii ''m'') then ascii ''masculine''
      else if linga = Some (ascii ''f'') then ascii ''feminine''
      else if linga = Some (ascii ''n'') then ascii ''neuter''
      else [])"

definition determineSubtype :: "jstring option \<Rightarrow> jstring" where
  "determineSubtype linga =
     (if linga = Some (ascii ''a'') then ascii ''adjective''
      else if linga = Some (ascii ''p'') then ascii ''pronoun''
      else if linga \<in> set [Some (ascii ''m''), Some (ascii ''f''), Some (ascii ''n'')]
        then ascii ''noun''
      else [])"


section \<open>Rows\<close>

text \<open>
  A parsed row and a converted record are JavaScript objects used as dictionaries from a
  column name to a string. The model keeps the own properties of the object:
  \<open>r k = None\<close> when the object has no own property \<open>k\<close>.
\<close>

type_synonym row = "jstring \<rightharpoonup> jstring"

text \<open>
  \<^verbatim>\<open>row[header] = v\<close> for a string \<open>v\<close>, on an object created by \<^verbatim>\<open>{}\<close>. The
  assignment creates or overwrites an own property, except for the name \<^verbatim>\<open>__proto__\<close>:
  that assignment goes to the setter of \<^verbatim>\<open>Object.prototype\<close>, which ignores a value that
  is neither an object nor \<^verbatim>\<open>null\<close>, so nothing is stored.
\<close>

definition set_prop :: "row \<Rightarrow> jstring \<Rightarrow> jstring \<Rightarrow> row" where
  "set_prop r header v = (if header = ascii ''__proto__'' then r else r(header \<mapsto> v))"

text \<open>
  \<^verbatim>\<open>xs[i]\<close> is \<^verbatim>\<open>undefined\<close> out of range, and \<^verbatim>\<open>v || ''\<close> replaces \<^verbatim>\<open>undefined\<close>
  and the empty string by the empty string.
\<close>

definition index_opt :: "'a list \<Rightarrow> nat \<Rightarrow> 'a option" where
  "index_opt xs i = (if i < length xs then Some (xs ! i) else None)"

definition or_empty :: "jstring option \<Rightarrow> jstring" where
  "or_empty v = (case v of None \<Rightarrow> [] | Some s \<Rightarrow> if s = [] then [] else s)"

text \<open>\<^verbatim>\<open>s.split(sep)\<close> for a one-unit separator, and \<^verbatim>\<open>xs.join(sep)\<close>.\<close>

fun split_acc :: "jschar \<Rightarrow> jstring \<Rightarrow> jstring \<Rightarrow> jstring list" where
  "split_acc sep cur [] = [cur]"
| "split_acc sep cur (c # cs) =
     (if c = sep then cur # split_acc sep [] cs else split_acc sep (cur @ [c]) cs)"

definition split_str :: "jschar \<Rightarrow> jstring \<Rightarrow> jstring list" where
  "split_str sep s = split_acc sep [] s"

fun join_str :: "jstring \<Rightarrow> jstring list \<Rightarrow> jstring" where
  "join_str sep [] = []"
| "join_str sep [x] = x"
| "join_str sep (x # y # ys) = x @ sep @ join_str sep (y # ys)"


section \<open>CSV parser\<close>

text \<open>
  \<^verbatim>\<open>parseLine\<close> scans a line with the index \<^verbatim>\<open>i\<close>; the model recurses on the rest of the
  line from \<^verbatim>\<open>i\<close> on, with the three variables of the loop as arguments.
  \<^verbatim>\<open>line[i + 1]\<close> is \<^verbatim>\<open>undefined\<close> at the end of the line.
\<close>

definition nextChar :: "jstring \<Rightarrow> jschar option" where
  "nextChar rest = (case rest of [] \<Rightarrow> None | c # _ \<Rightarrow> Some c)"

function parseLine_loop :: "jstring \<Rightarrow> jstring list \<Rightarrow> jstring \<Rightarrow> bool \<Rightarrow> jstring list" where
  "parseLine_loop [] values current inQuotes = values @ [trim current]"
| "parseLine_loop (char # rest) values current inQuotes =
     (if char = dquote then
        (if inQuotes \<and> nextChar rest = Some dquote
         then parseLine_loop (tl rest) values (current @ [dquote]) inQuotes
         else parseLine_loop rest values current (\<not> inQuotes))
      else if char = comma \<and> \<not> inQuotes
        then parseLine_loop rest (values @ [trim current]) [] inQuotes
      else parseLine_loop rest values (current @ [char]) inQuotes)"
  by pat_completeness auto
termination
  by (relation "measure (\<lambda>(line, values, current, inQuotes). length line)") auto

definition parseLine :: "jstring \<Rightarrow> jstring list" where
  "parseLine line = parseLine_loop line [] [] False"

definition hasContent :: "jstring list \<Rightarrow> bool" where
  "hasContent values = list_ex (\<lambda>val. val \<noteq> [] \<and> trim val \<noteq> []) values"

fun fill_row :: "jstring list \<Rightarrow> nat \<Rightarrow> jstring list \<Rightarrow> row \<Rightarrow> row" where
  "fill_row [] index values r = r"
| "fill_row (header # headers) index values r =
     fill_row headers (Suc index) values (set_prop r header (or_empty (index_opt values index)))"

fun parseCSV_rows :: "jstring list \<Rightarrow> jstring list \<Rightarrow> row list" where
  "parseCSV_rows headers [] = []"
| "parseCSV_rows headers (line # lines) =
     (let values = parseLine line in
      if \<not> hasContent values then parseCSV_rows headers lines
      else fill_row headers 0 values Map.empty # parseCSV_rows headers lines)"

definition parseCSV :: "jstring \<Rightarrow> row list" where
  "parseCSV content =
     (let lines = filter (\<lambda>line. trim line \<noteq> []) (split_str newline content) in
      case lines of
        [] \<Rightarrow> []
      | first # rest \<Rightarrow> parseCSV_rows (parseLine first) rest)"

text \<open>The migration's copy of the parser, translated from its own text.\<close>

function parseLine_loop_mig ::
  "jstring \<Rightarrow> jstring list \<Rightarrow> jstring \<Rightarrow> bool \<Rightarrow> jstring list" where
  "parseLine_loop_mig [] values current inQuotes = values @ [trim current]"
| "parseLine_loop_mig (char # rest) values current inQuotes =
     (if char = dquote then
        (if inQuotes \<and> nextChar rest = Some dquote
         then parseLine_loop_mig (tl rest) values (current @ [dquote]) inQuotes
         else parseLine_loop_mig rest values current (\<not> inQuotes))
      else if char = comma \<and> \<not> inQuotes
        then parseLine_loop_mig rest (values @ [trim current]) [] inQuotes
      else parseLine_loop_mig rest values (current @ [char]) inQuotes)"
  by pat_completeness auto
termination
  by (relation "measure (\<lambda>(line, values, current, inQuotes). length line)") auto

definition parseLine_mig :: "jstring \<Rightarrow> jstring list" where
  "parseLine_mig line = parseLine_loop_mig line [] [] False"

definition hasContent_mig :: "jstring list \<Rightarrow> bool" where
  "hasContent_mig values = list_ex (\<lambda>val. val \<noteq> [] \<and> trim val \<noteq> []) values"

fun fill_row_mig :: "jstring list \<Rightarrow> nat \<Rightarrow> jstring list \<Rightarrow> row \<Rightarrow> row" where
  "fill_row_mig [] index values r = r"
| "fill_row_mig (header # headers) index values r =
     fill_row_mig headers (Suc index) values
       (set_prop r header (or_empty (index_opt values index)))"

fun parseCSV_rows_mig :: "jstring list \<Rightarrow> jstring list \<Rightarrow> row list" where
  "parseCSV_rows_mig headers [] = []"
| "parseCSV_rows_mig headers (line # lines) =
     (let values = parseLine_mig line in
      if \<not> hasContent_mig values then parseCSV_rows_mig headers lines
      else fill_row_mig headers 0 values Map.empty # parseCSV_rows_mig headers lines)"

definition parseCSV_mig :: "jstring \<Rightarrow> row list" where
  "parseCSV_mig content =
     (let lines = filter (\<lambda>line. trim line \<noteq> []) (split_str newline content) in
      case lines of
        [] \<Rightarrow> []
      | first # rest \<Rightarrow> parseCSV_rows_mig (parseLine_mig first) rest)"


section \<open>CSV serializer\<close>

text \<open>
  \<^verbatim>\<open>String(value).replace(/"/g, '""')\<close> doubles every double quote. The header line is
  joined as it is; every value is quoted.
\<close>

definition escape_quotes :: "jstring \<Rightarrow> jstring" where
  "escape_quotes v = concat (map (\<lambda>c. if c = dquote then [dquote, dquote] else [c]) v)"

text \<open>
  The line that the callback of \<^verbatim>\<open>data.forEach\<close> pushes for one row. \<^verbatim>\<open>row[header]\<close>
  is the own property when the row has one. For a name that the row does not have the
  model gives \<^verbatim>\<open>undefined\<close>, hence the empty string; that is what the code does unless
  the name is a member of \<^verbatim>\<open>Object.prototype\<close>, which the code would then read. Every
  use of the serializer below is on rows that have each header as an own property.
\<close>

definition arrayToCSV_row :: "jstring list \<Rightarrow> row \<Rightarrow> jstring" where
  "arrayToCSV_row headers r =
     join_str [comma]
       (map (\<lambda>header. [dquote] @ escape_quotes (or_empty (r header)) @ [dquote]) headers)"

definition arrayToCSV :: "row list \<Rightarrow> jstring list \<Rightarrow> jstring" where
  "arrayToCSV data headers =
     join_str [newline] (join_str [comma] headers # map (arrayToCSV_row headers) data)"


section \<open>Conversion script\<close>

text \<open>The column names of the three source sheets, as UTF-16 code units.\<close>

definition col_dhatu :: jstring where
  "col_dhatu = [0x0927, 0x093E, 0x0924, 0x0941]"

definition col_gana :: jstring where
  "col_gana = [0x0917, 0x0923]"

definition col_pada :: jstring where
  "col_pada = [0x092A, 0x0926]"

definition col_lat :: jstring where
  "col_lat = [0x0924, 0x093F, 0x0919, 0x0928, 0x094D, 0x0924, 0x0902, 0x0020, 0x0932, 0x091F,
     0x094D]"

definition col_lan :: jstring where
  "col_lan = [0x0932, 0x0919, 0x094D] @ ascii '' / Pasado Imperfecto''"

definition col_lin :: jstring where
  "col_lin = [0x0932, 0x093F, 0x0919, 0x094D] @ ascii '' / Potencial''"

definition col_lot :: jstring where
  "col_lot = [0x0932, 0x094B, 0x091F, 0x094D] @ ascii '' / Imperativo''"

definition col_lit :: jstring where
  "col_lit = [0x0932, 0x093F, 0x091F, 0x094D] @ ascii '' / Pasado Perfecto''"

definition col_ktva :: jstring where
  "col_ktva = [0x0915, 0x094D, 0x0924, 0x094D, 0x0935, 0x093E] @ ascii '' / Gerundio''"

definition col_tumun :: jstring where
  "col_tumun = [0x0924, 0x0941, 0x092E, 0x0941, 0x0928, 0x094D] @ ascii '' / Infinitivo''"

definition col_kta :: jstring where
  "col_kta = [0x0915, 0x094D, 0x0924] @ ascii '' / PPP''"

definition col_linga :: jstring where
  "col_linga = [0x0932, 0x093F, 0x0919, 0x094D, 0x0917]"

definition col_subanta :: jstring where
  "col_subanta = [0x0938, 0x0941, 0x092C, 0x0928, 0x094D, 0x0924, 0x0902]"

definition col_avyaya :: jstring where
  "col_avyaya = [0x0905, 0x0935, 0x094D, 0x092F, 0x092F]"

definition col_vibhakti :: jstring where
  "col_vibhakti = [0x0935, 0x093F, 0x092D, 0x0915, 0x094D, 0x0924, 0x093F]"

definition col_Portugues_acute :: jstring where
  "col_Portugues_acute = [0x50, 0x6F, 0x72, 0x74, 0x75, 0x67, 0x75, 0xE9, 0x73]"

definition col_Espanol :: jstring where
  "col_Espanol = [0x45, 0x73, 0x70, 0x61, 0xF1, 0x6F, 0x6C]"

definition col_Ingles :: jstring where
  "col_Ingles = [0x49, 0x6E, 0x67, 0x6C, 0xE9, 0x73]"

text \<open>
  Each \<^verbatim>\<open>rows.map((row, index) => ...)\<close> builds one record per parsed row, with no
  filter; \<open>convertVerb\<close>, \<open>convertSubstantive\<close> and \<open>convertIndeclinable\<close> are the three
  callbacks. The indeclinables sheet spells its column \<^verbatim>\<open>Portugues\<close> without the accent.
\<close>

definition convertVerb :: "row \<Rightarrow> nat \<Rightarrow> row" where
  "convertVerb r index =
     map_of
       [(ascii ''word_type'', ascii ''verb''),
        (ascii ''word_devanagari'', cleanText (r col_dhatu)),
        (ascii ''root_devanagari'', cleanText (r col_dhatu)),
        (ascii ''verb_class'',
           (case r col_gana of
              None \<Rightarrow> []
            | Some g \<Rightarrow> if g \<noteq> [] \<and> g \<noteq> [0x2D] then g else [])),
        (ascii ''voice'', mapVoice (r col_pada)),
        (ascii ''standard_form'', cleanText (r col_lat)),
        (ascii ''meaning_pt'', cleanText (r col_Portugues_acute)),
        (ascii ''meaning_es'', cleanText (r col_Espanol)),
        (ascii ''meaning_en'', cleanText (r col_Ingles)),
        (ascii ''past_imperfect'', cleanText (r col_lan)),
        (ascii ''potential'', cleanText (r col_lin)),
        (ascii ''imperative'', cleanText (r col_lot)),
        (ascii ''past_participle'', cleanText (r col_lit)),
        (ascii ''gerund'', cleanText (r col_ktva)),
        (ascii ''infinitive'', cleanText (r col_tumun)),
        (ascii ''ppp'', cleanText (r col_kta)),
        (ascii ''itrans'', cleanText (r (ascii ''ITRANS''))),
        (ascii ''iast'', cleanText (r (ascii ''IATS''))),
        (ascii ''harvard_kyoto'', cleanText (r (ascii ''Harvard-Kyoto''))),
        (ascii ''is_published'', ascii ''true''),
        (ascii ''order_index'', String_nat (index + 1))]"

definition convertedVerbs :: "row list \<Rightarrow> row list" where
  "convertedVerbs verbsRows = map (\<lambda>(index, r). convertVerb r index) (enumerate 0 verbsRows)"

definition verbsHeaders :: "jstring list" where
  "verbsHeaders =
     [ascii ''word_type'', ascii ''word_devanagari'', ascii ''root_devanagari'',
      ascii ''verb_class'', ascii ''voice'', ascii ''standard_form'', ascii ''meaning_pt'',
      ascii ''meaning_es'', ascii ''meaning_en'', ascii ''past_imperfect'', ascii ''potential'',
      ascii ''imperative'', ascii ''past_participle'', ascii ''gerund'', ascii ''infinitive'',
      ascii ''ppp'', ascii ''itrans'', ascii ''iast'', ascii ''harvard_kyoto'',
      ascii ''is_published'', ascii ''order_index'']"

definition convertSubstantive :: "row \<Rightarrow> nat \<Rightarrow> row" where
  "convertSubstantive r index =
     (let linga = r col_linga in
      map_of
       [(ascii ''word_type'', ascii ''substantive''),
        (ascii ''word_subtype'', determineSubtype linga),
        (ascii ''word_devanagari'', cleanText (r col_subanta)),
        (ascii ''gender'', mapGender linga),
        (ascii ''meaning_pt'', cleanText (r col_Portugues_acute)),
        (ascii ''meaning_es'', cleanText (r col_Espanol)),
        (ascii ''meaning_en'', cleanText (r col_Ingles)),
        (ascii ''itrans'', cleanText (r (ascii ''ITRANS''))),
        (ascii ''iast'', cleanText (r (ascii ''IATS''))),
        (ascii ''harvard_kyoto'', cleanText (r (ascii ''Harvard-Kyoto''))),
        (ascii ''is_published'', ascii ''true''),
        (ascii ''order_index'', String_nat (index + 1))])"

definition convertedSubstantives :: "row list \<Rightarrow> row list" where
  "convertedSubstantives substantivesRows =
     map (\<lambda>(index, r). convertSubstantive r index) (enumerate 0 substantivesRows)"

definition substantivesHeaders :: "jstring list" where
  "substantivesHeaders =
     [ascii ''word_type'', ascii ''word_subtype'', ascii ''word_devanagari'', ascii ''gender'',
      ascii ''meaning_pt'', ascii ''meaning_es'', ascii ''meaning_en'', ascii ''itrans'',
      ascii ''iast'', ascii ''harvard_kyoto'', ascii ''is_published'', ascii ''order_index'']"

definition convertIndeclinable :: "row \<Rightarrow> nat \<Rightarrow> row" where
  "convertIndeclinable r index =
     map_of
       [(ascii ''word_type'', ascii ''indeclinable''),
        (ascii ''word_devanagari'', cleanText (r col_avyaya)),
        (ascii ''grammatical_case'', cleanText (r col_vibhakti)),
        (ascii ''meaning_pt'', cleanText (r (ascii ''Portugues''))),
        (ascii ''meaning_es'', cleanText (r col_Espanol)),
        (ascii ''meaning_en'', cleanText (r col_Ingles)),
        (ascii ''itrans'', cleanText (r (ascii ''ITRANS''))),
        (ascii ''iast'', cleanText (r (ascii ''IATS''))),
        (ascii ''harvard_kyoto'', cleanText (r (ascii ''Harvard-Kyoto''))),
        (ascii ''is_published'', ascii ''true''),
        (ascii ''order_index'', String_nat (index + 1))]"

definition convertedIndeclinables :: "row list \<Rightarrow> row list" where
  "convertedIndeclinables indeclinablesRows =
     map (\<lambda>(index, r). convertIndeclinable r index) (enumerate 0 indeclinablesRows)"

definition indeclinablesHeaders :: "jstring list" where
  "indeclinablesHeaders =
     [ascii ''word_type'', ascii ''word_devanagari'', ascii ''grammatical_case'',
      ascii ''meaning_pt'', ascii ''meaning_es'', ascii ''meaning_en'', ascii ''itrans'',
      ascii ''iast'', ascii ''harvard_kyoto'', ascii ''is_published'', ascii ''order_index'']"

text \<open>The text that the script writes for each sheet.\<close>

definition verbsCSV :: "jstring \<Rightarrow> jstring" where
  "verbsCSV verbsContent = arrayToCSV (convertedVerbs (parseCSV verbsContent)) verbsHeaders"

definition substantivesCSV :: "jstring \<Rightarrow> jstring" where
  "substantivesCSV substantivesContent =
     arrayToCSV (convertedSubstantives (parseCSV substantivesContent)) substantivesHeaders"

definition indeclinablesCSV :: "jstring \<Rightarrow> jstring" where
  "indeclinablesCSV indeclinablesContent =
     arrayToCSV (convertedIndeclinables (parseCSV indeclinablesContent)) indeclinablesHeaders"

text \<open>
  The file system is a map from a path, relative to the root of the repository, to the
  content of the file; \<^verbatim>\<open>readFileSync\<close> throws on a missing file. The script reads and
  writes the three sheets in turn, so a failure leaves the files written before it.
  (Creating the output directory and the progress messages on the console are not
  modelled.)
\<close>

type_synonym filesystem = "jstring \<rightharpoonup> jstring"

datatype error = ReadFailed jstring | CreateFailed

definition spreadSheetsDir :: jstring where
  "spreadSheetsDir = ascii ''src/spread_sheets/''"

definition outputDir :: jstring where
  "outputDir = ascii ''src/spread_sheets/converted/''"

definition convert_sheet ::
  "jstring \<Rightarrow> (jstring \<Rightarrow> jstring) \<Rightarrow> jstring \<Rightarrow> filesystem \<Rightarrow> error option \<times> filesystem" where
  "convert_sheet source convert target fs =
     (case fs (spreadSheetsDir @ source) of
        None \<Rightarrow> (Some (ReadFailed (spreadSheetsDir @ source)), fs)
      | Some content \<Rightarrow> (None, fs(outputDir @ target \<mapsto> convert content)))"

definition convert_script :: "filesystem \<Rightarrow> error option \<times> filesystem" where
  "convert_script fs =
     (case convert_sheet (ascii ''Vocabulario Glide - Verbos.csv'') verbsCSV
             (ascii ''verbs-for-import.csv'') fs of
        (Some e, fs1) \<Rightarrow> (Some e, fs1)
      | (None, fs1) \<Rightarrow>
     (case convert_sheet (ascii ''Vocabulario Glide - Sustantivos.csv'') substantivesCSV
             (ascii ''substantives-for-import.csv'') fs1 of
        (Some e, fs2) \<Rightarrow> (Some e, fs2)
      | (None, fs2) \<Rightarrow>
        convert_sheet (ascii ''Vocabulario Glide - Indeclinables.csv'') indeclinablesCSV
             (ascii ''indeclinables-for-import.csv'') fs2))"


section \<open>Import migration\<close>

text \<open>
  The values of the \<^verbatim>\<open>data\<close> object handed to the datastore: \<^verbatim>\<open>undefined\<close>, a string,
  the result of \<^verbatim>\<open>parseInt\<close> (an integer or \<^verbatim>\<open>NaN\<close>) or a boolean. Numbers are
  mathematical integers, which is what \<^verbatim>\<open>parseInt\<close> returns below \<open>2\<^sup>5\<^sup>3\<close>.
\<close>

datatype jsval = Undefined | Str jstring | Num int | NaN | Bool bool

definition of_prop :: "jstring option \<Rightarrow> jsval" where
  "of_prop v = (case v of None \<Rightarrow> Undefined | Some s \<Rightarrow> Str s)"

text \<open>
  \<^verbatim>\<open>parseInt(string)\<close> without a radix: skip leading white space, read a sign, take
  radix 16 after a prefix \<^verbatim>\<open>0x\<close> or \<^verbatim>\<open>0X\<close> and radix 10 otherwise, and read digits up
  to the first unit that is not one; no digit at all gives \<^verbatim>\<open>NaN\<close>.
\<close>

definition digit_value :: "jschar \<Rightarrow> nat option" where
  "digit_value c =
     (if 0x30 \<le> c \<and> c \<le> 0x39 then Some (c - 48)
      else if 0x61 \<le> c \<and> c \<le> 0x7A then Some (c - 87)
      else if 0x41 \<le> c \<and> c \<le> 0x5A then Some (c - 55)
      else None)"

definition is_digit :: "nat \<Rightarrow> jschar \<Rightarrow> bool" where
  "is_digit radix c = (case digit_value c of None \<Rightarrow> False | Some d \<Rightarrow> d < radix)"

definition digits_value :: "nat \<Rightarrow> jstring \<Rightarrow> nat" where
  "digits_value radix Z =
     foldl (\<lambda>n c. n * radix + (case digit_value c of None \<Rightarrow> 0 | Some d \<Rightarrow> d)) 0 Z"

definition parseInt :: "jstring \<Rightarrow> jsval" where
  "parseInt string =
     (let S = dropWhile isWhiteSpace string;
          sign = (if S \<noteq> [] \<and> hd S = 0x2D then - 1 else 1);
          S1 = (if S \<noteq> [] \<and> (hd S = 0x2B \<or> hd S = 0x2D) then tl S else S);
          hex = (take 2 S1 = ascii ''0x'' \<or> take 2 S1 = ascii ''0X'');
          R = (if hex then 16 else 10);
          S2 = (if hex then drop 2 S1 else S1);
          Z = takeWhile (is_digit R) S2
      in if Z = [] then NaN else Num (sign * int (digits_value R Z)))"

text \<open>\<^verbatim>\<open>v ? parseInt(v) : undefined\<close>, for a property \<^verbatim>\<open>v\<close> of a row.\<close>

definition parseInt_if_present :: "jstring option \<Rightarrow> jsval" where
  "parseInt_if_present v =
     (case v of None \<Rightarrow> Undefined | Some s \<Rightarrow> if s = [] then Undefined else parseInt s)"

type_synonym entry = "(jstring \<times> jsval) list"

definition verbData :: "row \<Rightarrow> entry" where
  "verbData r =
     [(ascii ''word_type'', of_prop (r (ascii ''word_type''))),
      (ascii ''word_devanagari'', of_prop (r (ascii ''word_devanagari''))),
      (ascii ''root_devanagari'', of_prop (cleanText_mig (r (ascii ''root_devanagari'')))),
      (ascii ''verb_class'', parseInt_if_present (r (ascii ''verb_class''))),
      (ascii ''voice'', of_prop (cleanText_mig (r (ascii ''voice'')))),
      (ascii ''standard_form'', of_prop (cleanText_mig (r (ascii ''standard_form'')))),
      (ascii ''meaning_pt'', of_prop (cleanText_mig (r (ascii ''meaning_pt'')))),
      (ascii ''meaning_es'', of_prop (cleanText_mig (r (ascii ''meaning_es'')))),
      (ascii ''meaning_en'', of_prop (cleanText_mig (r (ascii ''meaning_en'')))),
      (ascii ''past_imperfect'', of_prop (cleanText_mig (r (ascii ''past_imperfect'')))),
      (ascii ''potential'', of_prop (cleanText_mig (r (ascii ''potential'')))),
      (ascii ''imperative'', of_prop (cleanText_mig (r (ascii ''imperative'')))),
      (ascii ''past_participle'', of_prop (cleanText_mig (r (ascii ''past_participle'')))),
      (ascii ''gerund'', of_prop (cleanText_mig (r (ascii ''gerund'')))),
      (ascii ''infinitive'', of_prop (cleanText_mig (r (ascii ''infinitive'')))),
      (ascii ''ppp'', of_prop (cleanText_mig (r (ascii ''ppp'')))),
      (ascii ''itrans'', of_prop (cleanText_mig (r (ascii ''itrans'')))),
      (ascii ''iast'', of_prop (cleanText_mig (r (ascii ''iast'')))),
      (ascii ''harvard_kyoto'', of_prop (cleanText_mig (r (ascii ''harvard_kyoto'')))),
      (ascii ''is_published'', Bool (r (ascii ''is_published'') = Some (ascii ''true''))),
      (ascii ''order_index'', parseInt_if_present (r (ascii ''order_index'')))]"

definition substantiveData :: "row \<Rightarrow> entry" where
  "substantiveData r =
     [(ascii ''word_type'', of_prop (r (ascii ''word_type''))),
      (ascii ''word_subtype'', of_prop (cleanText_mig (r (ascii ''word_subtype'')))),
      (ascii ''word_devanagari'', of_prop (r (ascii ''word_devanagari''))),
      (ascii ''gender'', of_prop (cleanText_mig (r (ascii ''gender'')))),
      (ascii ''meaning_pt'', of_prop (cleanText_mig (r (ascii ''meaning_pt'')))),
      (ascii ''meaning_es'', of_prop (cleanText_mig (r (ascii ''meaning_es'')))),
      (ascii ''meaning_en'', of_prop (cleanText_mig (r (ascii ''meaning_en'')))),
      (ascii ''itrans'', of_prop (cleanText_mig (r (ascii ''itrans'')))),
      (ascii ''iast'', of_prop (cleanText_mig (r (ascii ''iast'')))),
      (ascii ''harvard_kyoto'', of_prop (cleanText_mig (r (ascii ''harvard_kyoto'')))),
      (ascii ''is_published'', Bool (r (ascii ''is_published'') = Some (ascii ''true''))),
      (ascii ''order_index'', parseInt_if_present (r (ascii ''order_index'')))]"

definition indeclinableData :: "row \<Rightarrow> entry" where
  "indeclinableData r =
     [(ascii ''word_type'', of_prop (r (ascii ''word_type''))),
      (ascii ''word_devanagari'', of_prop (r (ascii ''word_devanagari''))),
      (ascii ''grammatical_case'', of_prop (cleanText_mig (r (ascii ''grammatical_case'')))),
      (ascii ''meaning_pt'', of_prop (cleanText_mig (r (ascii ''meaning_pt'')))),
      (ascii ''meaning_es'', of_prop (cleanText_mig (r (ascii ''meaning_es'')))),
      (ascii ''meaning_en'', of_prop (cleanText_mig (r (ascii ''meaning_en'')))),
      (ascii ''itrans'', of_prop (cleanText_mig (r (ascii ''itrans'')))),
      (ascii ''iast'', of_prop (cleanText_mig (r (ascii ''iast'')))),
      (ascii ''harvard_kyoto'', of_prop (cleanText_mig (r (ascii ''harvard_kyoto'')))),
      (ascii ''is_published'', Bool (r (ascii ''is_published'') = Some (ascii ''true''))),
      (ascii ''order_index'', parseInt_if_present (r (ascii ''order_index'')))]"

text \<open>
  The datastore is the one collection \<^verbatim>\<open>api::vocabulary.vocabulary\<close>: the list of the
  records created, oldest first.
\<close>

type_synonym datastore = "entry list"

text \<open>
  Modelled from the spec: \<^verbatim>\<open>strapi.entityService.create\<close>, the \<^verbatim>\<open>create(collectionName,
  data)\<close> of the datastore collaborator, which belongs to the hosting framework and is not
  in the repository. It stores the record, or throws; \<open>rejects\<close> says which insertions
  throw, given the records stored so far.
\<close>

definition create ::
  "(datastore \<Rightarrow> entry \<Rightarrow> bool) \<Rightarrow> entry \<Rightarrow> datastore \<Rightarrow> error + datastore" where
  "create rejects data db = (if rejects db data then Inl CreateFailed else Inr (db @ [data]))"

text \<open>
  Modelled from the spec: \<^verbatim>\<open>strapi.db.transaction\<close>, the transaction scoping of the
  datastore collaborator with automatic rollback on a thrown error, which belongs to the
  hosting framework and is not in the repository. A body run in a transaction returns the
  error it threw, if any, with the datastore as it left it; the transaction keeps that
  datastore on success, and on an error restores the one it started from and passes the
  error on.
\<close>

definition transaction ::
  "(datastore \<Rightarrow> error option \<times> datastore) \<Rightarrow> datastore \<Rightarrow> error option \<times> datastore" where
  "transaction body db =
     (case body db of
        (None, db') \<Rightarrow> (None, db')
      | (Some e, db') \<Rightarrow> (Some e, db))"

text \<open>
  The three loops of \<^verbatim>\<open>up\<close> have the same shape and differ in the \<^verbatim>\<open>data\<close> object:
  a row without a \<^verbatim>\<open>word_devanagari\<close>, or with one that is blank after trimming, is
  skipped; an insertion that throws ends the loop. Each \<^verbatim>\<open>catch\<close> logs and throws the
  error again, so the later files are not read. (The counters feed the console only.)
\<close>

definition skip_row :: "row \<Rightarrow> bool" where
  "skip_row r =
     (case r (ascii ''word_devanagari'') of
        None \<Rightarrow> True
      | Some w \<Rightarrow> w = [] \<or> trim w = [])"

fun import_rows ::
  "(datastore \<Rightarrow> entry \<Rightarrow> bool) \<Rightarrow> (row \<Rightarrow> entry) \<Rightarrow> row list \<Rightarrow> datastore
     \<Rightarrow> error option \<times> datastore" where
  "import_rows rejects data [] db = (None, db)"
| "import_rows rejects data (r # rows) db =
     (if skip_row r then import_rows rejects data rows db
      else (case create rejects (data r) db of
              Inl e \<Rightarrow> (Some e, db)
            | Inr db' \<Rightarrow> import_rows rejects data rows db'))"

definition convertedDir :: jstring where
  "convertedDir = ascii ''src/spread_sheets/converted/''"

definition import_file ::
  "(datastore \<Rightarrow> entry \<Rightarrow> bool) \<Rightarrow> filesystem \<Rightarrow> jstring \<Rightarrow> (row \<Rightarrow> entry) \<Rightarrow> datastore
     \<Rightarrow> error option \<times> datastore" where
  "import_file rejects fs name data db =
     (case fs (convertedDir @ name) of
        None \<Rightarrow> (Some (ReadFailed (convertedDir @ name)), db)
      | Some fileContent \<Rightarrow> import_rows rejects data (parseCSV_mig fileContent) db)"

definition up_body ::
  "(datastore \<Rightarrow> entry \<Rightarrow> bool) \<Rightarrow> filesystem \<Rightarrow> datastore \<Rightarrow> error option \<times> datastore" where
  "up_body rejects fs db =
     (case import_file rejects fs (ascii ''verbs-for-import.csv'') verbData db of
        (Some e, db1) \<Rightarrow> (Some e, db1)
      | (None, db1) \<Rightarrow>
     (case import_file rejects fs (ascii ''substantives-for-import.csv'') substantiveData db1 of
        (Some e, db2) \<Rightarrow> (Some e, db2)
      | (None, db2) \<Rightarrow>
        import_file rejects fs (ascii ''indeclinables-for-import.csv'') indeclinableData db2))"

definition up :: "(datastore \<Rightarrow> entry \<Rightarrow> bool) \<Rightarrow> filesystem \<Rightarrow> datastore \<Rightarrow> error option \<times> datastore" where
  "up rejects fs db = transaction (up_body rejects fs) db"

text \<open>Reading one field off a list of rows or of stored records.\<close>

definition row_fields :: "jstring \<Rightarrow> row list \<Rightarrow> jstring option list" where
  "row_fields k rows = map (\<lambda>r. r k) rows"

definition stored_fields :: "jstring \<Rightarrow> datastore \<Rightarrow> jsval option list" where
  "stored_fields k db = map (\<lambda>e. map_of e k) db"


section \<open>Auxiliary notions and example inputs\<close>


text \<open>
  A verbs sheet with the columns \<^verbatim>\<open>dhatu\<close> and \<^verbatim>\<open>Ingles\<close> and one row, whose \<^verbatim>\<open>dhatu\<close>
  is empty: the line \<^verbatim>\<open>,to go\<close>.
\<close>

definition sheet_blank_word :: jstring where
  "sheet_blank_word = col_dhatu @ [comma] @ col_Ingles @ [newline] @ [comma] @ ascii ''to go''"

text \<open>
  Three source sheets. The verbs sheet has the one column \<^verbatim>\<open>dhatu\<close> and the three rows
  \<^verbatim>\<open>x\<close>, \<^verbatim>\<open>-\<close> and \<^verbatim>\<open>y\<close>; the other two sheets are empty.
\<close>

definition sheet_gap :: jstring where
  "sheet_gap = col_dhatu @ [newline] @ ascii ''x'' @ [newline] @ ascii ''-'' @ [newline]
     @ ascii ''y''"

definition sheets_gap :: filesystem where
  "sheets_gap =
     [spreadSheetsDir @ ascii ''Vocabulario Glide - Verbos.csv'' \<mapsto> sheet_gap,
      spreadSheetsDir @ ascii ''Vocabulario Glide - Sustantivos.csv'' \<mapsto> [],
      spreadSheetsDir @ ascii ''Vocabulario Glide - Indeclinables.csv'' \<mapsto> []]"

text \<open>A datastore that accepts every insertion: no insertion throws.\<close>

definition rejects_none :: "datastore \<Rightarrow> entry \<Rightarrow> bool" where
  "rejects_none db data = False"

text \<open>
  The row that \<^verbatim>\<open>parseCSV\<close> returns for the line that \<^verbatim>\<open>arrayToCSV\<close> wrote for a
  record: the columns of the header list other than \<^verbatim>\<open>__proto__\<close>, each value trimmed.
\<close>

definition reparsed :: "jstring list \<Rightarrow> row \<Rightarrow> row" where
  "reparsed headers r =
     (\<lambda>k. if k \<in> set headers \<and> k \<noteq> ascii ''__proto__''
          then Some (trim (or_empty (r k))) else None)"


text \<open>
  The records that a loop of \<^verbatim>\<open>up\<close> tries to insert for the text of a file, in order,
  and what a run of insertions does to the datastore: it stops at the first one that throws.
\<close>

definition attempted :: "(row \<Rightarrow> entry) \<Rightarrow> jstring \<Rightarrow> entry list" where
  "attempted data fileContent =
     map data (filter (\<lambda>r. \<not> skip_row r) (parseCSV_mig fileContent))"

fun insert_all ::
  "(datastore \<Rightarrow> entry \<Rightarrow> bool) \<Rightarrow> entry list \<Rightarrow> datastore \<Rightarrow> error option \<times> datastore" where
  "insert_all rejects [] db = (None, db)"
| "insert_all rejects (e # es) db =
     (if rejects db e then (Some CreateFailed, db) else insert_all rejects es (db @ [e]))"

text \<open>
  Three normalized files with the one column \<^verbatim>\<open>word_devanagari\<close>: a verbs file with the
  row \<^verbatim>\<open>a\<close>, a substantives file with the rows \<^verbatim>\<open>b\<close> and \<^verbatim>\<open>c\<close>, and an indeclinables
  file with the row \<^verbatim>\<open>d\<close>; and a datastore whose second insertion throws.
\<close>

definition file_a :: jstring where
  "file_a = ascii ''word_devanagari'' @ [newline] @ ascii ''a''"

definition file_bc :: jstring where
  "file_bc = ascii ''word_devanagari'' @ [newline] @ ascii ''b'' @ [newline] @ ascii ''c''"

definition file_d :: jstring where
  "file_d = ascii ''word_devanagari'' @ [newline] @ ascii ''d''"

definition files_abcd :: filesystem where
  "files_abcd =
     [convertedDir @ ascii ''verbs-for-import.csv'' \<mapsto> file_a,
      convertedDir @ ascii ''substantives-for-import.csv'' \<mapsto> file_bc,
      convertedDir @ ascii ''indeclinables-for-import.csv'' \<mapsto> file_d]"

definition rejects_second :: "datastore \<Rightarrow> entry \<Rightarrow> bool" where
  "rejects_second db data = (length db = 1)"

text \<open>A stored record has a headword: a \<^verbatim>\<open>word_devanagari\<close> that is not blank.\<close>

definition has_word :: "entry \<Rightarrow> bool" where
  "has_word e =
     (case map_of e (ascii ''word_devanagari'') of
        Some (Str w) \<Rightarrow> trim w \<noteq> []
      | _ \<Rightarrow> False)"

text \<open>
  The spec's account of the persisted \<^verbatim>\<open>order_index\<close> values of one sheet: the 1-based
  positions, among all the rows that the parser returns for the source sheet, of the rows
  whose headword column is not the empty sentinel, in order. (A position is an array index
  plus one, far below \<open>2\<^sup>5\<^sup>3\<close>.)
\<close>

definition kept_order :: "jstring \<Rightarrow> row list \<Rightarrow> jsval option list" where
  "kept_order col rows =
     map (\<lambda>(i, r). Some (Num (int i + 1)))
       (filter (\<lambda>(i, r). cleanText (r col) \<noteq> []) (enumerate 0 rows))"


section \<open>Facts about the built-ins\<close>

lemma ascii_eq_iff [simp]: "ascii s = ascii t \<longleftrightarrow> s = t"
  unfolding ascii_def by (simp add: inj_map_eq_map inj_of_char)

lemma ascii_Nil [simp]: "ascii [] = []"
  by (simp add: ascii_def)

lemma ascii_eq_Nil [simp]: "ascii s = [] \<longleftrightarrow> s = []" "[] = ascii s \<longleftrightarrow> s = []"
  by (auto simp: ascii_def)

lemma ascii_single: "ascii [c] = [of_char c]"
  by (simp add: ascii_def)

lemma trim_Nil [simp]: "trim [] = []"
  by (simp add: trim_def)

lemma all_dropWhile_iff: "(\<forall>x \<in> set (dropWhile P s). P x) \<longleftrightarrow> (\<forall>x \<in> set s. P x)"
  by (induction s) auto

lemma trim_eq_Nil_iff: "trim s = [] \<longleftrightarrow> (\<forall>c \<in> set s. isWhiteSpace c)"
  by (simp add: trim_def all_dropWhile_iff)


section \<open>The field mapper's contracts\<close>

text \<open>
  C8. \<^verbatim>\<open>cleanText\<close> yields the empty sentinel (the empty string in the conversion script,
  \<^verbatim>\<open>undefined\<close> in the migration) exactly when its input is absent, is the em dash or the
  hyphen alone, or is blank after trimming; otherwise it yields the input trimmed. In
  particular the em dash, the empty string, three spaces and \<^verbatim>\<open>undefined\<close> give the
  sentinel, and \<^verbatim>\<open>" ram "\<close> gives \<^verbatim>\<open>"ram"\<close>.
\<close>

theorem cleanText_sentinel:
  "(cleanText s = [] \<longleftrightarrow>
      s = None \<or> s = Some [0x2014] \<or> s = Some [0x2D] \<or> (\<exists>t. s = Some t \<and> trim t = []))
   \<and> (cleanText s \<noteq> [] \<longrightarrow> (\<exists>t. s = Some t \<and> cleanText s = trim t))
   \<and> (cleanText_mig s = None \<longleftrightarrow>
      s = None \<or> s = Some [0x2014] \<or> s = Some [0x2D] \<or> (\<exists>t. s = Some t \<and> trim t = []))
   \<and> (cleanText_mig s \<noteq> None \<longrightarrow> (\<exists>t. s = Some t \<and> cleanText_mig s = Some (trim t)))
   \<and> cleanText (Some [0x2014]) = [] \<and> cleanText (Some []) = []
   \<and> cleanText (Some (ascii ''   '')) = [] \<and> cleanText None = []
   \<and> cleanText (Some (ascii '' ram '')) = ascii ''ram''
   \<and> cleanText_mig (Some [0x2014]) = None \<and> cleanText_mig (Some []) = None
   \<and> cleanText_mig (Some (ascii ''   '')) = None \<and> cleanText_mig None = None
   \<and> cleanText_mig (Some (ascii '' ram '')) = Some (ascii ''ram'')"
proof -
  have blank: "trim (ascii ''   '') = []"
    by (simp add: trim_def ascii_def isWhiteSpace_def)
  have ram: "trim (ascii '' ram '') = ascii ''ram''"
    by (simp add: trim_def ascii_def isWhiteSpace_def)
  have ram_ne: "ascii '' ram '' \<noteq> [0x2014]" "ascii '' ram '' \<noteq> [0x2D]"
    by (simp_all add: ascii_def)
  have general: "(cleanText s = [] \<longleftrightarrow>
      s = None \<or> s = Some [0x2014] \<or> s = Some [0x2D] \<or> (\<exists>t. s = Some t \<and> trim t = []))
   \<and> (cleanText s \<noteq> [] \<longrightarrow> (\<exists>t. s = Some t \<and> cleanText s = trim t))
   \<and> (cleanText_mig s = None \<longleftrightarrow>
      s = None \<or> s = Some [0x2014] \<or> s = Some [0x2D] \<or> (\<exists>t. s = Some t \<and> trim t = []))
   \<and> (cleanText_mig s \<noteq> None \<longrightarrow> (\<exists>t. s = Some t \<and> cleanText_mig s = Some (trim t)))"
    by (cases s) (auto simp: cleanText_def cleanText_mig_def)
  have examples: "cleanText (Some [0x2014]) = [] \<and> cleanText (Some []) = []
   \<and> cleanText (Some (ascii ''   '')) = [] \<and> cleanText None = []
   \<and> cleanText (Some (ascii '' ram '')) = ascii ''ram''
   \<and> cleanText_mig (Some [0x2014]) = None \<and> cleanText_mig (Some []) = None
   \<and> cleanText_mig (Some (ascii ''   '')) = None \<and> cleanText_mig None = None
   \<and> cleanText_mig (Some (ascii '' ram '')) = Some (ascii ''ram'')"
    by (simp add: cleanText_def cleanText_mig_def blank ram ram_ne)
  from general examples show ?thesis by (elim conjE) (intro conjI; assumption)
qed

theorem cleanText_sentinel_witness:
  "cleanText (Some (ascii '' x '')) \<noteq> []
   \<and> cleanText (Some (ascii '' x '')) = trim (ascii '' x '')
   \<and> cleanText_mig (Some (ascii '' x '')) \<noteq> None
   \<and> cleanText_mig (Some (ascii '' x '')) = Some (trim (ascii '' x ''))
   \<and> trim (ascii '' x '') = ascii ''x''"
proof -
  have t: "trim (ascii '' x '') = ascii ''x''"
    by (simp add: trim_def ascii_def isWhiteSpace_def)
  have ne: "ascii '' x '' \<noteq> [0x2014]" "ascii '' x '' \<noteq> [0x2D]"
    by (simp_all add: ascii_def)
  have h1: "cleanText (Some (ascii '' x '')) \<noteq> []"
    by (simp add: cleanText_def t ne)
  have h2: "cleanText_mig (Some (ascii '' x '')) \<noteq> None"
    by (simp add: cleanText_mig_def t ne)
  from cleanText_sentinel [of "Some (ascii '' x '')"] h1 h2 t show ?thesis
    by auto
qed

lemma toUpperCase_unit_P: "toUpperCase_unit c = 0x50 \<longleftrightarrow> c = 0x50 \<or> c = 0x70"
  unfolding toUpperCase_unit_def by auto

lemma toUpperCase_unit_A: "toUpperCase_unit c = 0x41 \<longleftrightarrow> c = 0x41 \<or> c = 0x61"
  unfolding toUpperCase_unit_def by auto

lemma toUpperCase_unit_U: "toUpperCase_unit c = 0x55 \<longleftrightarrow> c = 0x55 \<or> c = 0x75"
  unfolding toUpperCase_unit_def by auto

lemma toUpperCase_eq_single:
  "toUpperCase s = [u] \<longleftrightarrow> (\<exists>c. s = [c] \<and> toUpperCase_unit c = u)"
  unfolding toUpperCase_def by (cases s) auto

lemma toUpperCase_P: "toUpperCase s = ascii ''P'' \<longleftrightarrow> s = ascii ''P'' \<or> s = ascii ''p''"
  by (auto simp: toUpperCase_eq_single ascii_single toUpperCase_unit_P)

lemma toUpperCase_A: "toUpperCase s = ascii ''A'' \<longleftrightarrow> s = ascii ''A'' \<or> s = ascii ''a''"
  by (auto simp: toUpperCase_eq_single ascii_single toUpperCase_unit_A)

lemma toUpperCase_U: "toUpperCase s = ascii ''U'' \<longleftrightarrow> s = ascii ''U'' \<or> s = ascii ''u''"
  by (auto simp: toUpperCase_eq_single ascii_single toUpperCase_unit_U)

text \<open>
  C9. \<^verbatim>\<open>mapVoice\<close> matches case-insensitively: \<^verbatim>\<open>P\<close> or \<^verbatim>\<open>p\<close> gives parasmaipada,
  \<^verbatim>\<open>A\<close> or \<^verbatim>\<open>a\<close> atmanepada, \<^verbatim>\<open>U\<close> or \<^verbatim>\<open>u\<close> ubhayapada; every other input,
  \<^verbatim>\<open>undefined\<close> included, gives the empty sentinel (the empty string in the conversion
  script, \<^verbatim>\<open>undefined\<close> in the migration). The function has no failing branch.
\<close>

theorem mapVoice_total:
  "mapVoice pada =
     (if pada = Some (ascii ''P'') \<or> pada = Some (ascii ''p'') then ascii ''parasmaipada''
      else if pada = Some (ascii ''A'') \<or> pada = Some (ascii ''a'') then ascii ''atmanepada''
      else if pada = Some (ascii ''U'') \<or> pada = Some (ascii ''u'') then ascii ''ubhayapada''
      else [])
   \<and> mapVoice_mig pada =
     (if pada = Some (ascii ''P'') \<or> pada = Some (ascii ''p'') then Some (ascii ''parasmaipada'')
      else if pada = Some (ascii ''A'') \<or> pada = Some (ascii ''a'') then Some (ascii ''atmanepada'')
      else if pada = Some (ascii ''U'') \<or> pada = Some (ascii ''u'') then Some (ascii ''ubhayapada'')
      else None)"
  by (cases pada)
    (auto simp: mapVoice_def mapVoice_mig_def toUpperCase_P toUpperCase_A toUpperCase_U)

theorem mapVoice_total_witness:
  "mapVoice (Some (ascii ''u'')) = ascii ''ubhayapada''
   \<and> mapVoice_mig (Some (ascii ''u'')) = Some (ascii ''ubhayapada'')
   \<and> mapVoice (Some (ascii ''x'')) = [] \<and> mapVoice_mig (Some (ascii ''x'')) = None
   \<and> mapVoice (Some (ascii ''PA'')) = [] \<and> mapVoice_mig (Some (ascii ''PA'')) = None
   \<and> mapVoice None = [] \<and> mapVoice_mig None = None"
  using mapVoice_total [of "Some (ascii ''u'')"] mapVoice_total [of "Some (ascii ''x'')"]
    mapVoice_total [of "Some (ascii ''PA'')"] mapVoice_total [of None]
  by simp

text \<open>
  C10. Whenever \<^verbatim>\<open>mapGender\<close> yields a gender, \<^verbatim>\<open>determineSubtype\<close> yields \<^verbatim>\<open>noun\<close>
  on the same input; so every converted substantive record with a non-empty \<^verbatim>\<open>gender\<close>
  has \<^verbatim>\<open>word_subtype\<close> \<^verbatim>\<open>noun\<close>.
\<close>

theorem gender_implies_noun:
  "(mapGender linga \<noteq> [] \<longrightarrow> determineSubtype linga = ascii ''noun'')
   \<and> (\<forall>e \<in> set (convertedSubstantives substantivesRows).
        e (ascii ''gender'') \<noteq> Some [] \<longrightarrow> e (ascii ''word_subtype'') = Some (ascii ''noun''))"
  by (auto simp: convertedSubstantives_def convertSubstantive_def Let_def mapGender_def
      determineSubtype_def split: if_splits)

theorem gender_implies_noun_witness:
  "mapGender (Some (ascii ''f'')) \<noteq> []
   \<and> determineSubtype (Some (ascii ''f'')) = ascii ''noun''
   \<and> convertSubstantive [col_linga \<mapsto> ascii ''f''] 0
        \<in> set (convertedSubstantives [[col_linga \<mapsto> ascii ''f'']])
   \<and> convertSubstantive [col_linga \<mapsto> ascii ''f''] 0 (ascii ''gender'') \<noteq> Some []
   \<and> convertSubstantive [col_linga \<mapsto> ascii ''f''] 0 (ascii ''word_subtype'')
        = Some (ascii ''noun'')"
proof -
  have g: "mapGender (Some (ascii ''f'')) \<noteq> []"
    by (simp add: mapGender_def)
  have m: "convertSubstantive [col_linga \<mapsto> ascii ''f''] 0
        \<in> set (convertedSubstantives [[col_linga \<mapsto> ascii ''f'']])"
    by (simp add: convertedSubstantives_def enumerate_eq_zip)
  have ne: "convertSubstantive [col_linga \<mapsto> ascii ''f''] 0 (ascii ''gender'') \<noteq> Some []"
    by (simp add: convertSubstantive_def Let_def mapGender_def)
  from gender_implies_noun [of "Some (ascii ''f'')" "[[col_linga \<mapsto> ascii ''f'']]"] g m ne
  show ?thesis by blast
qed


section \<open>The CSV parser\<close>

lemma special_units_distinct [simp]:
  "comma \<noteq> dquote" "dquote \<noteq> comma" "newline \<noteq> dquote" "dquote \<noteq> newline"
  "comma \<noteq> newline" "newline \<noteq> comma"
  by (simp_all add: comma_def dquote_def newline_def)

lemma parseLine_loop_mig_eq:
  "parseLine_loop_mig line vals cur inQ = parseLine_loop line vals cur inQ"
  by (induction line vals cur inQ rule: parseLine_loop.induct) simp_all

lemma parseLine_mig_eq: "parseLine_mig = parseLine"
  by (rule ext) (simp add: parseLine_mig_def parseLine_def parseLine_loop_mig_eq)

lemma hasContent_mig_eq: "hasContent_mig = hasContent"
  by (rule ext) (simp add: hasContent_mig_def hasContent_def)

lemma fill_row_mig_eq: "fill_row_mig headers index vals r = fill_row headers index vals r"
  by (induction headers arbitrary: index r) simp_all

lemma parseCSV_rows_mig_eq: "parseCSV_rows_mig headers lines = parseCSV_rows headers lines"
  by (induction lines) (simp_all add: Let_def parseLine_mig_eq hasContent_mig_eq fill_row_mig_eq)

lemma parseCSV_mig_eq: "parseCSV_mig content = parseCSV content"
  by (simp add: parseCSV_mig_def parseCSV_def parseLine_mig_eq parseCSV_rows_mig_eq
      split: list.splits)

text \<open>
  C7. The parser of the import migration and the parser of the conversion script compute
  the same function: on every input string they return the same list of records.
\<close>

theorem parseCSV_copies_agree: "parseCSV_mig content = parseCSV content"
  by (rule parseCSV_mig_eq)


text \<open>
  C6, as stated, at the bare field \<^verbatim>\<open>He said ""hi""\<close>: the scan is outside quotes when it
  meets the first pair, so each quote only toggles the flag and no quote is emitted.
\<close>

theorem escaped_quote_bare_field:
  "parseLine (ascii ''He said \"\"hi\"\"'') = [ascii ''He said hi'']
   \<and> parseLine (ascii ''He said \"\"hi\"\"'') \<noteq> [ascii ''He said \"hi\"'']
   \<and> parseLine_mig (ascii ''He said \"\"hi\"\"'') = [ascii ''He said hi'']
   \<and> parseLine_mig (ascii ''He said \"\"hi\"\"'') \<noteq> [ascii ''He said \"hi\"'']"
proof -
  have "parseLine (ascii ''He said \"\"hi\"\"'') = [ascii ''He said hi'']"
    by (simp add: parseLine_def ascii_def dquote_def comma_def nextChar_def trim_def
        isWhiteSpace_def)
  then show ?thesis by (simp add: parseLine_mig_eq)
qed

text \<open>
  C6, amended. While inside quotes, a doubled double quote emits one literal double quote
  and the scan moves past both; in particular the quoted field \<^verbatim>\<open>"He said ""hi"""\<close>
  parses to \<^verbatim>\<open>He said "hi"\<close>.
\<close>

theorem escaped_quote_inside_quotes:
  "parseLine_loop (dquote # dquote # rest) vals cur True
     = parseLine_loop rest vals (cur @ [dquote]) True
   \<and> parseLine_loop_mig (dquote # dquote # rest) vals cur True
     = parseLine_loop_mig rest vals (cur @ [dquote]) True
   \<and> parseLine (ascii ''\"He said \"\"hi\"\"\"'') = [ascii ''He said \"hi\"'']
   \<and> parseLine_mig (ascii ''\"He said \"\"hi\"\"\"'') = [ascii ''He said \"hi\"'']"
proof -
  have "parseLine (ascii ''\"He said \"\"hi\"\"\"'') = [ascii ''He said \"hi\"'']"
    by (simp add: parseLine_def ascii_def dquote_def comma_def nextChar_def trim_def
        isWhiteSpace_def)
  then show ?thesis by (simp add: parseLine_mig_eq nextChar_def)
qed


section \<open>Serializing and parsing back\<close>

lemma split_acc_no_sep: "sep \<notin> set l \<Longrightarrow> split_acc sep cur l = [cur @ l]"
  by (induction l arbitrary: cur) auto

lemma split_acc_append:
  "sep \<notin> set l \<Longrightarrow> split_acc sep cur (l @ sep # s) = (cur @ l) # split_acc sep [] s"
  by (induction l arbitrary: cur) auto

lemma split_join:
  "ls \<noteq> [] \<Longrightarrow> \<forall>l \<in> set ls. sep \<notin> set l \<Longrightarrow> split_str sep (join_str [sep] ls) = ls"
proof (induction "[sep]" ls rule: join_str.induct)
  case 1
  then show ?case by simp
next
  case (2 x)
  then show ?case by (simp add: split_str_def split_acc_no_sep)
next
  case (3 x y ys)
  then show ?case by (simp add: split_str_def split_acc_append)
qed

lemma parseLine_loop_plain:
  "dquote \<notin> set h \<Longrightarrow> comma \<notin> set h \<Longrightarrow>
   parseLine_loop (h @ s) vals cur False = parseLine_loop s vals (cur @ h) False"
  by (induction h arbitrary: cur) auto

lemma parseLine_loop_headers:
  "hs \<noteq> [] \<Longrightarrow> \<forall>h \<in> set hs. dquote \<notin> set h \<and> comma \<notin> set h \<Longrightarrow>
   parseLine_loop (join_str [comma] hs) vals [] False = vals @ map trim hs"
proof (induction "[comma]" hs arbitrary: vals rule: join_str.induct)
  case 1
  then show ?case by simp
next
  case (2 x)
  then show ?case using parseLine_loop_plain [of x "[]" vals "[]"] by simp
next
  case (3 x y ys)
  then show ?case using parseLine_loop_plain [of x "comma # join_str [comma] (y # ys)" vals "[]"]
    by simp
qed

lemma parseLine_loop_escaped:
  "nextChar s \<noteq> Some dquote \<Longrightarrow>
   parseLine_loop (escape_quotes v @ dquote # s) vals cur True
     = parseLine_loop s vals (cur @ v) False"
  by (induction v arbitrary: cur) (auto simp: escape_quotes_def nextChar_def)

lemma parseLine_loop_quoted:
  "nextChar s \<noteq> Some dquote \<Longrightarrow>
   parseLine_loop ([dquote] @ escape_quotes v @ [dquote] @ s) vals cur False
     = parseLine_loop s vals (cur @ v) False"
  by (simp add: parseLine_loop_escaped)

lemma parseLine_loop_quoted_fields:
  "vs \<noteq> [] \<Longrightarrow>
   parseLine_loop (join_str [comma] (map (\<lambda>v. [dquote] @ escape_quotes v @ [dquote]) vs))
     vals [] False = vals @ map trim vs"
proof (induction vs arbitrary: vals)
  case Nil
  then show ?case by simp
next
  case (Cons v vs)
  show ?case
  proof (cases vs)
    case Nil
    then show ?thesis
      using parseLine_loop_quoted [of "[]" v vals "[]"] by (simp add: nextChar_def)
  next
    case (Cons w ws)
    then show ?thesis
      using parseLine_loop_quoted [of "comma # join_str [comma] (map (\<lambda>v. [dquote] @ escape_quotes v @ [dquote]) vs)" v vals "[]"] Cons.IH [of "vals @ [trim v]"]
      by (simp add: nextChar_def)
  qed
qed

lemma or_empty_Some [simp]: "or_empty (Some s) = s"
  by (simp add: or_empty_def)

lemma or_empty_None [simp]: "or_empty None = []"
  by (simp add: or_empty_def)

lemma fill_row_map:
  "length pre = i \<Longrightarrow>
   fill_row hs i (pre @ map f hs) r
     = (\<lambda>k. if k \<in> set hs \<and> k \<noteq> ascii ''__proto__'' then Some (f k) else r k)"
proof (induction hs arbitrary: i pre r)
  case Nil
  then show ?case by simp
next
  case (Cons h hs)
  have "fill_row (h # hs) i (pre @ map f (h # hs)) r
      = fill_row hs (Suc i) ((pre @ [f h]) @ map f hs) (set_prop r h (f h))"
    using Cons.prems by (simp add: index_opt_def nth_append)
  also have "\<dots> = (\<lambda>k. if k \<in> set hs \<and> k \<noteq> ascii ''__proto__'' then Some (f k)
                         else (set_prop r h (f h)) k)"
    using Cons.prems by (intro Cons.IH) simp
  finally show ?case by (auto simp: fun_eq_iff set_prop_def)
qed

lemma dropWhile_rev_dropWhile:
  "dropWhile P (rev (dropWhile P (rev (dropWhile P s)))) = rev (dropWhile P (rev (dropWhile P s)))"
proof (cases "dropWhile P s")
  case Nil
  then show ?thesis by (simp del: dropWhile_eq_Nil_conv)
next
  case (Cons x d)
  then have "\<not> P x" using hd_dropWhile [of P s] by simp
  then show ?thesis using Cons by (simp add: dropWhile_append3)
qed

lemma trim_idem [simp]: "trim (trim s) = trim s"
  by (simp add: trim_def dropWhile_rev_dropWhile)

lemma set_join_str:
  "c \<in> set (join_str sep xs) \<Longrightarrow> c \<in> set sep \<or> (\<exists>x \<in> set xs. c \<in> set x)"
  by (induction sep xs rule: join_str.induct) auto

lemma set_escape_quotes: "c \<in> set (escape_quotes v) \<Longrightarrow> c = dquote \<or> c \<in> set v"
  by (auto simp: escape_quotes_def split: if_splits)

lemma trim_neq_Nil: "c \<in> set s \<Longrightarrow> \<not> isWhiteSpace c \<Longrightarrow> trim s \<noteq> []"
  by (auto simp: trim_eq_Nil_iff)

lemma not_isWhiteSpace_special [simp]: "\<not> isWhiteSpace comma" "\<not> isWhiteSpace dquote"
  by (simp_all add: isWhiteSpace_def comma_def dquote_def)

lemma hd_in_join_str: "c \<in> set x \<Longrightarrow> c \<in> set (join_str sep (x # xs))"
  by (cases xs) auto

lemma sep_in_join_str: "c \<in> set sep \<Longrightarrow> c \<in> set (join_str sep (x # y # ys))"
  by simp

lemma arrayToCSV_lines:
  "arrayToCSV R H = join_str [newline] (join_str [comma] H # map (arrayToCSV_row H) R)"
  by (simp add: arrayToCSV_def)

lemma parseLine_arrayToCSV_row:
  "H \<noteq> [] \<Longrightarrow> parseLine (arrayToCSV_row H r) = map (\<lambda>h. trim (or_empty (r h))) H"
  using parseLine_loop_quoted_fields [of "map (\<lambda>h. or_empty (r h)) H" "[]"]
  by (simp add: parseLine_def arrayToCSV_row_def comp_def)

lemma arrayToCSV_row_not_blank: "H \<noteq> [] \<Longrightarrow> trim (arrayToCSV_row H r) \<noteq> []"
proof -
  assume "H \<noteq> []"
  then obtain h hs where "H = h # hs" by (cases H) auto
  then have "dquote \<in> set (arrayToCSV_row H r)"
    by (simp add: arrayToCSV_row_def hd_in_join_str)
  then show ?thesis by (rule trim_neq_Nil) simp
qed

lemma arrayToCSV_row_no_newline:
  "\<forall>h \<in> set H. newline \<notin> set (or_empty (r h)) \<Longrightarrow> newline \<notin> set (arrayToCSV_row H r)"
  by (auto simp: arrayToCSV_row_def dest!: set_join_str set_escape_quotes)

lemma header_line_no_newline:
  "\<forall>h \<in> set H. newline \<notin> set h \<Longrightarrow> newline \<notin> set (join_str [comma] H)"
  by (auto dest!: set_join_str)

lemma header_line_not_blank:
  assumes "H \<noteq> []" "H \<noteq> [[]]" "\<forall>h \<in> set H. trim h = h"
  shows "trim (join_str [comma] H) \<noteq> []"
proof (cases H)
  case Nil
  with assms show ?thesis by simp
next
  case (Cons h hs)
  show ?thesis
  proof (cases hs)
    case Nil
    with Cons assms show ?thesis by simp
  next
    case (Cons h' hs')
    with \<open>H = h # hs\<close> have "comma \<in> set (join_str [comma] H)" by simp
    then show ?thesis by (rule trim_neq_Nil) simp
  qed
qed

lemma parseCSV_rows_row_lines:
  "H \<noteq> [] \<Longrightarrow>
   parseCSV_rows H (map (arrayToCSV_row H) R)
     = map (reparsed H) (filter (\<lambda>r. \<exists>h \<in> set H. trim (or_empty (r h)) \<noteq> []) R)"
proof (induction R)
  case Nil
  then show ?case by simp
next
  case (Cons r R)
  have hc: "hasContent (map (\<lambda>h. trim (or_empty (r h))) H)
      \<longleftrightarrow> (\<exists>h \<in> set H. trim (or_empty (r h)) \<noteq> [])"
    by (auto simp: hasContent_def list_ex_iff trim_idem)
  have fr: "fill_row H 0 (map (\<lambda>h. trim (or_empty (r h))) H) Map.empty = reparsed H r"
    using fill_row_map [where pre = "[]" and i = 0 and f = "\<lambda>h. trim (or_empty (r h))"
        and hs = H and r = Map.empty] by (simp add: reparsed_def)
  show ?case
    using Cons by (simp add: parseLine_arrayToCSV_row Let_def hc fr)
qed

lemma parseCSV_arrayToCSV:
  assumes H: "\<forall>h \<in> set H. trim h = h \<and> dquote \<notin> set h \<and> comma \<notin> set h \<and> newline \<notin> set h"
    and ne: "H \<noteq> []" "H \<noteq> [[]]"
    and R: "\<forall>r \<in> set R. \<forall>h \<in> set H. newline \<notin> set (or_empty (r h))"
  shows "parseCSV (arrayToCSV R H)
     = map (reparsed H) (filter (\<lambda>r. \<exists>h \<in> set H. trim (or_empty (r h)) \<noteq> []) R)"
proof -
  let ?lines = "join_str [comma] H # map (arrayToCSV_row H) R"
  have "\<forall>l \<in> set ?lines. newline \<notin> set l"
    using H R by (auto simp: header_line_no_newline arrayToCSV_row_no_newline)
  then have split: "split_str newline (arrayToCSV R H) = ?lines"
    by (simp add: arrayToCSV_lines split_join)
  have "\<forall>l \<in> set ?lines. trim l \<noteq> []"
    using H ne by (auto simp: header_line_not_blank arrayToCSV_row_not_blank)
  then have keep: "filter (\<lambda>line. trim line \<noteq> []) ?lines = ?lines"
    by (simp only: filter_id_conv)
  have "parseLine (join_str [comma] H) = map trim H"
    using H ne parseLine_loop_headers [of H "[]"] by (simp add: parseLine_def)
  also have "\<dots> = H"
    using H by (simp add: map_idI)
  finally have hdr: "parseLine (join_str [comma] H) = H" .
  have "parseCSV (arrayToCSV R H)
      = parseCSV_rows (parseLine (join_str [comma] H)) (map (arrayToCSV_row H) R)"
    unfolding parseCSV_def split Let_def keep by simp
  then show ?thesis
    using ne by (simp add: hdr parseCSV_rows_row_lines)
qed

text \<open>
  C1, as stated, at one row whose only field has a leading space and no newline: the
  parser trims every field, quoted or not, so the row does not come back.
\<close>

theorem csv_roundtrip_untrimmed_field:
  "newline \<notin> set (ascii '' a'')
   \<and> parseCSV (arrayToCSV [[ascii ''h'' \<mapsto> ascii '' a'']] [ascii ''h''])
       = [[ascii ''h'' \<mapsto> ascii ''a'']]
   \<and> parseCSV (arrayToCSV [[ascii ''h'' \<mapsto> ascii '' a'']] [ascii ''h''])
       \<noteq> [[ascii ''h'' \<mapsto> ascii '' a'']]"
proof -
  have nl: "newline \<notin> set (ascii '' a'')"
    by (simp add: ascii_def newline_def)
  have eq: "parseCSV (arrayToCSV [[ascii ''h'' \<mapsto> ascii '' a'']] [ascii ''h''])
       = [[ascii ''h'' \<mapsto> ascii ''a'']]"
    by (simp add: arrayToCSV_def arrayToCSV_row_def escape_quotes_def parseCSV_def ascii_def
        split_str_def newline_def trim_def isWhiteSpace_def parseLine_def dquote_def
        comma_def nextChar_def hasContent_def index_opt_def set_prop_def)
  have "[ascii ''h'' \<mapsto> ascii ''a''] \<noteq> [ascii ''h'' \<mapsto> ascii '' a'']"
  proof
    assume "[ascii ''h'' \<mapsto> ascii ''a''] = [ascii ''h'' \<mapsto> ascii '' a'']"
    then have "ascii ''a'' = ascii '' a''" by (rule map_upd_eqD1)
    then show False by simp
  qed
  with nl eq show ?thesis by simp
qed

text \<open>
  C1, amended. Let no header contain a comma, a double quote or a newline, let every
  header be trimmed, let no header be the name \<^verbatim>\<open>__proto__\<close>, and let the header list
  not consist of the empty name alone. Let every row have exactly the headers as its own
  fields, every field be trimmed and free of newlines, and every row have at least one
  non-empty field. Then parsing the serialized output gives back the rows, field for
  field.
\<close>

theorem csv_roundtrip:
  assumes H: "\<forall>h \<in> set H. trim h = h \<and> dquote \<notin> set h \<and> comma \<notin> set h \<and> newline \<notin> set h"
    and proto: "ascii ''__proto__'' \<notin> set H"
    and ne: "H \<noteq> [[]]"
    and R: "\<forall>r \<in> set R. dom r = set H \<and> (\<forall>v \<in> ran r. trim v = v \<and> newline \<notin> set v)
              \<and> (\<exists>v \<in> ran r. v \<noteq> [])"
  shows "parseCSV (arrayToCSV R H) = R"
proof (cases "H = []")
  case True
  have "R = []"
  proof (rule ccontr)
    assume "R \<noteq> []"
    then obtain r where "r \<in> set R" by (cases R) auto
    with R True have "dom r = {}" "\<exists>v \<in> ran r. v \<noteq> []" by auto
    then show False by (auto simp: ran_def)
  qed
  with True show ?thesis
    by (simp add: arrayToCSV_def parseCSV_def split_str_def)
next
  case False
  have val: "r h = Some (trim (or_empty (r h))) \<and> newline \<notin> set (or_empty (r h))"
    if "r \<in> set R" "h \<in> set H" for r h
  proof -
    from that R have "h \<in> dom r" by auto
    then obtain v where v: "r h = Some v" by auto
    then have "v \<in> ran r" by (auto simp: ran_def)
    with that R have "trim v = v \<and> newline \<notin> set v" by auto
    with v show ?thesis by simp
  qed
  have content: "\<exists>h \<in> set H. trim (or_empty (r h)) \<noteq> []" if "r \<in> set R" for r
  proof -
    from that R obtain v where "v \<in> ran r" "v \<noteq> []" by blast
    then obtain h where h: "r h = Some v" by (auto simp: ran_def)
    with that R have "h \<in> set H" by auto
    moreover from val [OF that this] h have "trim (or_empty (r h)) = v" by simp
    ultimately show ?thesis using \<open>v \<noteq> []\<close> by blast
  qed
  have same: "reparsed H r = r" if "r \<in> set R" for r
  proof (rule ext)
    fix k
    show "reparsed H r k = r k"
    proof (cases "k \<in> set H")
      case True
      with proto have "k \<noteq> ascii ''__proto__''" by auto
      with True val [OF that True] show ?thesis by (simp add: reparsed_def)
    next
      case False
      with that R have "k \<notin> dom r" by auto
      with False show ?thesis by (simp add: reparsed_def domIff)
    qed
  qed
  have "parseCSV (arrayToCSV R H)
     = map (reparsed H) (filter (\<lambda>r. \<exists>h \<in> set H. trim (or_empty (r h)) \<noteq> []) R)"
    using H False ne val by (intro parseCSV_arrayToCSV) auto
  also have "filter (\<lambda>r. \<exists>h \<in> set H. trim (or_empty (r h)) \<noteq> []) R = R"
    using content by (simp only: filter_id_conv) blast
  also have "map (reparsed H) R = R"
    using same by (simp add: map_idI)
  finally show ?thesis .
qed

theorem csv_roundtrip_witness:
  "parseCSV (arrayToCSV [[ascii ''a'' \<mapsto> ascii ''x, \"y\"'', ascii ''b'' \<mapsto> []]]
                 [ascii ''a'', ascii ''b''])
       = [[ascii ''a'' \<mapsto> ascii ''x, \"y\"'', ascii ''b'' \<mapsto> []]]"
proof -
  have h1: "\<forall>h \<in> set [ascii ''a'', ascii ''b''].
       trim h = h \<and> dquote \<notin> set h \<and> comma \<notin> set h \<and> newline \<notin> set h"
    by (simp add: ascii_def trim_def isWhiteSpace_def dquote_def comma_def newline_def)
  have h2: "[ascii ''a'', ascii ''b''] \<noteq> [[]]"
    by simp
  have hp: "ascii ''__proto__'' \<notin> set [ascii ''a'', ascii ''b'']"
    by simp
  have t: "trim (ascii ''x, \"y\"'') = ascii ''x, \"y\"''"
      "newline \<notin> set (ascii ''x, \"y\"'')"
    by (simp_all add: ascii_def trim_def isWhiteSpace_def newline_def)
  have h3: "\<forall>r \<in> set [[ascii ''a'' \<mapsto> ascii ''x, \"y\"'', ascii ''b'' \<mapsto> []]].
        dom r = set [ascii ''a'', ascii ''b'']
        \<and> (\<forall>v \<in> ran r. trim v = v \<and> newline \<notin> set v) \<and> (\<exists>v \<in> ran r. v \<noteq> [])"
    using t by auto
  from csv_roundtrip [OF h1 hp h2 h3] show ?thesis .
qed


section \<open>Malformed quoting\<close>

lemma split_acc_not_Nil [simp]: "split_acc sep cur s \<noteq> []"
  by (induction s arbitrary: cur) auto





lemma map_add_single: "r ++ [h \<mapsto> x] = r(h \<mapsto> x)"
  by simp













section \<open>The import pass\<close>

lemma import_rows_append:
  "import_rows rejects data (xs @ ys) db =
     (case import_rows rejects data xs db of
        (None, db1) \<Rightarrow> import_rows rejects data ys db1
      | (Some e, db1) \<Rightarrow> (Some e, db1))"
  by (induction xs arbitrary: db) (auto split: sum.splits)

lemma import_rows_grows:
  "\<exists>new. snd (import_rows rejects data rows db) = db @ new
     \<and> (\<forall>e \<in> set new. \<exists>r \<in> set rows. \<not> skip_row r \<and> e = data r)"
proof (induction rows arbitrary: db)
  case Nil
  then show ?case by simp
next
  case (Cons r rows)
  show ?case
  proof (cases "skip_row r \<or> rejects db (data r)")
    case True
    then show ?thesis using Cons.IH [of db] by (auto simp: create_def)
  next
    case False
    from Cons.IH [of "db @ [data r]"] obtain new where
      "snd (import_rows rejects data rows (db @ [data r])) = (db @ [data r]) @ new"
      "\<forall>e \<in> set new. \<exists>r \<in> set rows. \<not> skip_row r \<and> e = data r" by blast
    with False show ?thesis
      by (intro exI [of _ "data r # new"]) (auto simp: create_def)
  qed
qed

lemma has_word_data:
  "\<not> skip_row r \<Longrightarrow> has_word (verbData r) \<and> has_word (substantiveData r) \<and> has_word (indeclinableData r)"
  by (auto simp: skip_row_def has_word_def verbData_def substantiveData_def indeclinableData_def of_prop_def split: option.splits)

lemma import_file_grows:
  assumes "\<And>r. \<not> skip_row r \<Longrightarrow> has_word (data r)"
  shows "\<exists>new. snd (import_file rejects fs name data db) = db @ new \<and> (\<forall>e \<in> set new. has_word e)"
proof (cases "fs (convertedDir @ name)")
  case None
  then show ?thesis by (simp add: import_file_def)
next
  case (Some fileContent)
  from import_rows_grows [of rejects data "parseCSV_mig fileContent" db] obtain new where
    new: "snd (import_rows rejects data (parseCSV_mig fileContent) db) = db @ new"
      "\<forall>e \<in> set new. \<exists>r \<in> set (parseCSV_mig fileContent). \<not> skip_row r \<and> e = data r"
    by blast
  have "\<forall>e \<in> set new. has_word e"
  proof
    fix e assume "e \<in> set new"
    with new(2) obtain r where "\<not> skip_row r" "e = data r" by blast
    with assms [of r] show "has_word e" by simp
  qed
  with new(1) Some show ?thesis by (simp add: import_file_def)
qed

lemma up_body_grows:
  "\<exists>new. snd (up_body rejects fs db) = db @ new \<and> (\<forall>e \<in> set new. has_word e)"
proof -
  obtain o1 db1 where r1: "import_file rejects fs (ascii ''verbs-for-import.csv'') verbData db = (o1, db1)"
    by (cases "import_file rejects fs (ascii ''verbs-for-import.csv'') verbData db") 
  obtain o2 db2 where r2: "import_file rejects fs (ascii ''substantives-for-import.csv'') substantiveData db1 = (o2, db2)"
    by (cases "import_file rejects fs (ascii ''substantives-for-import.csv'') substantiveData db1") 
  obtain o3 db3 where r3: "import_file rejects fs (ascii ''indeclinables-for-import.csv'') indeclinableData db2 = (o3, db3)"
    by (cases "import_file rejects fs (ascii ''indeclinables-for-import.csv'') indeclinableData db2") 
  from import_file_grows [of verbData rejects fs "ascii ''verbs-for-import.csv''" db] r1
  obtain n1 where n1: "db1 = db @ n1" "\<forall>e \<in> set n1. has_word e"
    by (auto simp: has_word_data)
  from import_file_grows [of substantiveData rejects fs "ascii ''substantives-for-import.csv''" db1] r2
  obtain n2 where n2: "db2 = db1 @ n2" "\<forall>e \<in> set n2. has_word e"
    by (auto simp: has_word_data)
  from import_file_grows [of indeclinableData rejects fs "ascii ''indeclinables-for-import.csv''" db2] r3
  obtain n3 where n3: "db3 = db2 @ n3" "\<forall>e \<in> set n3. has_word e"
    by (auto simp: has_word_data)
  have "snd (up_body rejects fs db) = db1 \<or> snd (up_body rejects fs db) = db2 \<or> snd (up_body rejects fs db) = db3"
    using r1 r2 r3 by (auto simp: up_body_def split: option.splits)
  moreover have "db2 = db @ (n1 @ n2)" "db3 = db @ (n1 @ n2 @ n3)" using n1 n2 n3 by simp_all
  ultimately show ?thesis using n1 n2 n3 
    by (metis Un_iff set_append)
qed

lemma up_grows:
  "\<exists>new. snd (up rejects fs db) = db @ new \<and> (\<forall>e \<in> set new. has_word e)"
proof (cases "fst (up_body rejects fs db)")
  case None
  then have "snd (up rejects fs db) = snd (up_body rejects fs db)"
    by (auto simp: up_def transaction_def split: prod.splits)
  then show ?thesis using up_body_grows [of rejects fs db] by simp
next
  case (Some e)
  then have "snd (up rejects fs db) = db"
    by (auto simp: up_def transaction_def split: prod.splits)
  then show ?thesis by (intro exI [of _ "[]"]) simp
qed

lemma length_converted:
  "length (convertedVerbs rows) = length rows"
  "length (convertedSubstantives rows) = length rows"
  "length (convertedIndeclinables rows) = length rows"
  by (simp_all add: convertedVerbs_def convertedSubstantives_def convertedIndeclinables_def)

lemma nth_converted:
  "i < length rows \<Longrightarrow> convertedVerbs rows ! i = convertVerb (rows ! i) i"
  "i < length rows \<Longrightarrow> convertedSubstantives rows ! i = convertSubstantive (rows ! i) i"
  "i < length rows \<Longrightarrow> convertedIndeclinables rows ! i = convertIndeclinable (rows ! i) i"
  by (simp_all add: convertedVerbs_def convertedSubstantives_def convertedIndeclinables_def nth_enumerate_eq)

lemma order_index_converted:
  "convertVerb r i (ascii ''order_index'') = Some (String_nat (i + 1))"
  "convertSubstantive r i (ascii ''order_index'') = Some (String_nat (i + 1))"
  "convertIndeclinable r i (ascii ''order_index'') = Some (String_nat (i + 1))"
  by (simp_all add: convertVerb_def convertSubstantive_def convertIndeclinable_def Let_def)

lemma ascii_append [simp]: "ascii a @ ascii b = ascii (a @ b)"
  by (simp add: ascii_def)

lemma set_trim: "set (trim s) \<subseteq> set s"
  unfolding trim_def by (auto dest!: set_dropWhileD)

lemma newline_cleanText:
  "(\<And>t. s = Some t \<Longrightarrow> newline \<notin> set t) \<Longrightarrow> newline \<notin> set (cleanText s)"
  using set_trim by (cases s) (auto simp: cleanText_def)

lemma newline_String_nat: "newline \<notin> set (String_nat n)"
  by (induction n rule: String_nat.induct)
    (subst String_nat.simps, auto simp: digit_unit_def newline_def)

lemma newline_fixed:
  "newline \<notin> set (mapVoice p)" "newline \<notin> set (mapGender g)"
  "newline \<notin> set (determineSubtype g)"
  by (simp_all add: mapVoice_def mapGender_def determineSubtype_def Let_def ascii_def newline_def)

lemma or_empty_map_of:
  "\<forall>(k, v) \<in> set l. P v \<Longrightarrow> P [] \<Longrightarrow> P (or_empty (map_of l h))"
  by (cases "map_of l h") (auto simp: or_empty_def dest: map_of_SomeD)
lemma newline_literals:
  "newline \<notin> set (ascii ''verb'')" "newline \<notin> set (ascii ''substantive'')"
  "newline \<notin> set (ascii ''indeclinable'')" "newline \<notin> set (ascii ''true'')"
  by (simp_all add: ascii_def newline_def)

lemma convertVerb_newline_free:
  assumes "\<And>k v. r k = Some v \<Longrightarrow> newline \<notin> set v"
  shows "newline \<notin> set (or_empty (convertVerb r i h))"
proof -
  have clean: "newline \<notin> set (cleanText (r c))" for c
    using assms by (intro newline_cleanText)
  have gana: "Some g = r col_gana \<Longrightarrow> newline \<notin> set g" for g
    using assms [of col_gana g] by simp
  show ?thesis
    unfolding convertVerb_def
    by (rule or_empty_map_of)
      (auto simp: clean newline_String_nat newline_fixed newline_literals
        split: option.splits dest: gana)
qed

lemma convertSubstantive_newline_free:
  assumes "\<And>k v. r k = Some v \<Longrightarrow> newline \<notin> set v"
  shows "newline \<notin> set (or_empty (convertSubstantive r i h))"
proof -
  have clean: "newline \<notin> set (cleanText (r c))" for c
    using assms by (intro newline_cleanText)
  show ?thesis
    unfolding convertSubstantive_def Let_def
    by (rule or_empty_map_of)
      (simp_all add: clean newline_String_nat newline_fixed newline_literals)
qed

lemma convertIndeclinable_newline_free:
  assumes "\<And>k v. r k = Some v \<Longrightarrow> newline \<notin> set v"
  shows "newline \<notin> set (or_empty (convertIndeclinable r i h))"
proof -
  have clean: "newline \<notin> set (cleanText (r c))" for c
    using assms by (intro newline_cleanText)
  show ?thesis
    unfolding convertIndeclinable_def
    by (rule or_empty_map_of)
      (simp_all add: clean newline_String_nat newline_fixed newline_literals)
qed

lemma verbsHeaders_ok:
  "\<forall>h \<in> set verbsHeaders. trim h = h \<and> dquote \<notin> set h \<and> comma \<notin> set h \<and> newline \<notin> set h"
  by (simp add: verbsHeaders_def ascii_def trim_def isWhiteSpace_def dquote_def comma_def
      newline_def)

lemma substantivesHeaders_ok:
  "\<forall>h \<in> set substantivesHeaders.
     trim h = h \<and> dquote \<notin> set h \<and> comma \<notin> set h \<and> newline \<notin> set h"
  by (simp add: substantivesHeaders_def ascii_def trim_def isWhiteSpace_def dquote_def comma_def
      newline_def)

lemma indeclinablesHeaders_ok:
  "\<forall>h \<in> set indeclinablesHeaders.
     trim h = h \<and> dquote \<notin> set h \<and> comma \<notin> set h \<and> newline \<notin> set h"
  by (simp add: indeclinablesHeaders_def ascii_def trim_def isWhiteSpace_def dquote_def comma_def
      newline_def)


section \<open>What the parser returns for a converted sheet\<close>

lemma trim_no_white: "\<forall>c \<in> set s. \<not> isWhiteSpace c \<Longrightarrow> trim s = s"
proof (cases s)
  case Nil
  then show ?thesis by simp
next
  case (Cons x xs)
  assume a: "\<forall>c \<in> set s. \<not> isWhiteSpace c"
  with Cons have 1: "dropWhile isWhiteSpace s = s" by simp
  from Cons have "rev s \<noteq> []" by simp
  then have "hd (rev s) \<in> set (rev s)" by (rule hd_in_set)
  then have "hd (rev s) \<in> set s" by simp
  with a \<open>rev s \<noteq> []\<close> have 2: "dropWhile isWhiteSpace (rev s) = rev s"
    by (simp add: dropWhile_eq_self_iff)
  show ?thesis by (simp add: trim_def 1 2)
qed

lemma trim_cleanText [simp]: "trim (cleanText s) = cleanText s"
  by (cases s) (auto simp: cleanText_def)

lemma String_nat_digits: "c \<in> set (String_nat n) \<Longrightarrow> 48 \<le> c \<and> c \<le> 57"
  by (induction n rule: String_nat.induct)
    (subst (asm) String_nat.simps, auto simp: digit_unit_def split: if_splits)

lemma String_nat_not_Nil [simp]: "String_nat n \<noteq> []"
  by (subst String_nat.simps) simp

lemma trim_String_nat [simp]: "trim (String_nat n) = String_nat n"
  by (rule trim_no_white) (auto dest!: String_nat_digits simp: isWhiteSpace_def)

lemma split_arrayToCSV:
  assumes "\<forall>h \<in> set H. newline \<notin> set h"
    and "\<forall>r \<in> set R. \<forall>h \<in> set H. newline \<notin> set (or_empty (r h))"
  shows "split_str newline (arrayToCSV R H) = join_str [comma] H # map (arrayToCSV_row H) R"
proof -
  have "\<forall>l \<in> set (join_str [comma] H # map (arrayToCSV_row H) R). newline \<notin> set l"
    using assms by (auto simp: header_line_no_newline arrayToCSV_row_no_newline)
  then show ?thesis
    by (simp add: arrayToCSV_lines split_join)
qed

lemma parseCSV_arrayToCSV_reparsed:
  assumes "\<forall>h \<in> set H. trim h = h \<and> dquote \<notin> set h \<and> comma \<notin> set h \<and> newline \<notin> set h"
    and "H \<noteq> []" "H \<noteq> [[]]"
    and "\<forall>r \<in> set R. \<forall>h \<in> set H. newline \<notin> set (or_empty (r h))"
    and "\<forall>r \<in> set R. \<exists>h \<in> set H. trim (or_empty (r h)) \<noteq> []"
  shows "parseCSV (arrayToCSV R H) = map (reparsed H) R"
proof -
  have "filter (\<lambda>r. \<exists>h \<in> set H. trim (or_empty (r h)) \<noteq> []) R = R"
    using assms(5) by (simp only: filter_id_conv)
  then show ?thesis
    using parseCSV_arrayToCSV [OF assms(1-4)] by simp
qed

lemma convertedVerbs_set:
  "c \<in> set (convertedVerbs rows) \<Longrightarrow> \<exists>r i. r \<in> set rows \<and> c = convertVerb r i"
  by (auto simp: convertedVerbs_def in_set_enumerate_eq) (metis nth_mem)

lemma convertVerb_word_type: "convertVerb r i (ascii ''word_type'') = Some (ascii ''verb'')"
  by (simp add: convertVerb_def)

lemma convertVerb_word: "convertVerb r i (ascii ''word_devanagari'') = Some (cleanText (r col_dhatu))"
  by (simp add: convertVerb_def)

lemma verbsHeaders_mem:
  "ascii ''word_type'' \<in> set verbsHeaders" "ascii ''word_devanagari'' \<in> set verbsHeaders"
  "ascii ''order_index'' \<in> set verbsHeaders"
  by (simp_all add: verbsHeaders_def)

lemma verbsCSV_reparse:
  assumes "\<And>r k v. r \<in> set rows \<Longrightarrow> r k = Some v \<Longrightarrow> newline \<notin> set v"
  shows "parseCSV (arrayToCSV (convertedVerbs rows) verbsHeaders)
     = map (reparsed verbsHeaders) (convertedVerbs rows)"
proof (rule parseCSV_arrayToCSV_reparsed [OF verbsHeaders_ok])
  show "verbsHeaders \<noteq> []" "verbsHeaders \<noteq> [[]]"
    by (simp_all add: verbsHeaders_def)
  show "\<forall>c \<in> set (convertedVerbs rows). \<forall>h \<in> set verbsHeaders. newline \<notin> set (or_empty (c h))"
    using assms by (auto dest!: convertedVerbs_set intro!: convertVerb_newline_free)
  have "trim (ascii ''verb'') \<noteq> []"
    by (simp add: trim_def ascii_def isWhiteSpace_def)
  then show "\<forall>c \<in> set (convertedVerbs rows). \<exists>h \<in> set verbsHeaders. trim (or_empty (c h)) \<noteq> []"
    by (auto dest!: convertedVerbs_set intro!: bexI [of _ "ascii ''word_type''"]
        simp: convertVerb_word_type verbsHeaders_mem)
qed

lemma reparsed_convertVerb:
  "reparsed verbsHeaders (convertVerb r i) (ascii ''word_devanagari'') = Some (cleanText (r col_dhatu))"
  "reparsed verbsHeaders (convertVerb r i) (ascii ''order_index'') = Some (String_nat (i + 1))"
  by (simp_all add: reparsed_def verbsHeaders_mem convertVerb_word order_index_converted)

lemma skip_reparsed_convertVerb:
  "skip_row (reparsed verbsHeaders (convertVerb r i)) \<longleftrightarrow> cleanText (r col_dhatu) = []"
  by (simp add: skip_row_def reparsed_convertVerb)

lemma verbData_order_index:
  "map_of (verbData r) (ascii ''order_index'') = Some (parseInt_if_present (r (ascii ''order_index'')))"
  by (simp add: verbData_def)


section \<open>What the script emits for a source sheet\<close>

lemma split_acc_lines_no_sep:
  "l \<in> set (split_acc sep cur s) \<Longrightarrow> sep \<notin> set cur \<Longrightarrow> sep \<notin> set l"
proof (induction s arbitrary: cur)
  case Nil
  then show ?case by simp
next
  case (Cons c s)
  show ?case
  proof (cases "c = sep")
    case True
    with Cons.prems have "l = cur \<or> l \<in> set (split_acc sep [] s)" by simp
    then show ?thesis using Cons.IH [of "[]"] Cons.prems(2) by auto
  next
    case False
    with Cons.prems have "l \<in> set (split_acc sep (cur @ [c]) s)" by simp
    then show ?thesis using Cons.IH [of "cur @ [c]"] Cons.prems(2) False by auto
  qed
qed

lemma parseLine_loop_units:
  "v \<in> set (parseLine_loop line vals cur inQ) \<Longrightarrow> c \<notin> set line \<Longrightarrow> c \<notin> set cur \<Longrightarrow>
   \<forall>w \<in> set vals. c \<notin> set w \<Longrightarrow> c \<notin> set v"
proof (induction line vals cur inQ rule: parseLine_loop.induct)
  case (1 vals cur inQ)
  then show ?case using set_trim [of cur] by auto
next
  case (2 char rest vals cur inQ)
  note mem = "2.prems"(1) and nl = "2.prems"(2) and nc = "2.prems"(3) and nv = "2.prems"(4)
  have t: "c \<notin> set (trim cur)" using nc set_trim [of cur] by auto
  have r: "c \<notin> set rest" "c \<notin> set (tl rest)" "c \<noteq> char"
    using nl by (cases rest; auto)+
  consider (esc) "char = dquote" "inQ \<and> nextChar rest = Some dquote"
    | (tog) "char = dquote" "\<not> (inQ \<and> nextChar rest = Some dquote)"
    | (sep) "char \<noteq> dquote" "char = comma \<and> \<not> inQ"
    | (oth) "char \<noteq> dquote" "\<not> (char = comma \<and> \<not> inQ)"
    by blast
  then show ?case
  proof cases
    case esc
    with mem have "v \<in> set (parseLine_loop (tl rest) vals (cur @ [dquote]) inQ)" by simp
    from "2.IH"(1) [OF esc this r(2) _ nv] esc(1) r(3) nc show ?thesis by simp
  next
    case tog
    with mem have "v \<in> set (parseLine_loop rest vals cur (\<not> inQ))" by auto
    from "2.IH"(2) [OF tog this r(1) nc nv] show ?thesis .
  next
    case sep
    with mem have "v \<in> set (parseLine_loop rest (vals @ [trim cur]) [] inQ)" by simp
    from "2.IH"(3) [OF sep this r(1)] t nv show ?thesis by simp
  next
    case oth
    with mem have "v \<in> set (parseLine_loop rest vals (cur @ [char]) inQ)" by auto
    from "2.IH"(4) [OF oth this r(1) _ nv] r(3) nc show ?thesis by simp
  qed
qed

lemma parseLine_units: "v \<in> set (parseLine line) \<Longrightarrow> c \<notin> set line \<Longrightarrow> c \<notin> set v"
  unfolding parseLine_def by (erule parseLine_loop_units) simp_all

lemma fill_row_units:
  "\<forall>v \<in> set vals. c \<notin> set v \<Longrightarrow> \<forall>k v. r k = Some v \<longrightarrow> c \<notin> set v \<Longrightarrow>
   fill_row hs i vals r k = Some v \<Longrightarrow> c \<notin> set v"
proof (induction hs arbitrary: i r)
  case Nil
  then show ?case by simp
next
  case (Cons h hs)
  have "c \<notin> set (or_empty (index_opt vals i))"
    using Cons.prems(1) by (auto simp: index_opt_def)
  then have "\<forall>k v. set_prop r h (or_empty (index_opt vals i)) k = Some v \<longrightarrow> c \<notin> set v"
    using Cons.prems(2) by (auto simp: set_prop_def)
  from Cons.IH [OF Cons.prems(1) this] Cons.prems(3) show ?case by simp
qed

lemma parseCSV_rows_units:
  "\<forall>l \<in> set ls. c \<notin> set l \<Longrightarrow> r \<in> set (parseCSV_rows hs ls) \<Longrightarrow> r k = Some v \<Longrightarrow>
   c \<notin> set v"
proof (induction ls)
  case Nil
  then show ?case by simp
next
  case (Cons l ls)
  show ?case
  proof (cases "r = fill_row hs 0 (parseLine l) Map.empty")
    case True
    have "\<forall>v \<in> set (parseLine l). c \<notin> set v"
      using Cons.prems(1) by (auto dest: parseLine_units)
    from fill_row_units [OF this, of Map.empty hs 0 k v] True Cons.prems(3)
    show ?thesis by simp
  next
    case False
    with Cons.prems have "r \<in> set (parseCSV_rows hs ls)"
      by (auto simp: Let_def split: if_splits)
    with Cons show ?thesis by simp
  qed
qed

lemma parseCSV_no_newline:
  assumes "r \<in> set (parseCSV content)" "r k = Some v"
  shows "newline \<notin> set v"
proof (cases "filter (\<lambda>line. trim line \<noteq> []) (split_str newline content)")
  case Nil
  with assms show ?thesis by (simp add: parseCSV_def)
next
  case (Cons first rest)
  have "\<forall>l \<in> set (split_str newline content). newline \<notin> set l"
    by (auto simp: split_str_def dest: split_acc_lines_no_sep)
  then have "\<forall>l \<in> set (filter (\<lambda>line. trim line \<noteq> []) (split_str newline content)).
      newline \<notin> set l" by simp
  with Cons have "\<forall>l \<in> set rest. newline \<notin> set l" by simp
  moreover from assms(1) Cons have "r \<in> set (parseCSV_rows (parseLine first) rest)"
    by (simp add: parseCSV_def)
  ultimately show ?thesis using assms(2) by (rule parseCSV_rows_units)
qed

lemma convertedSubstantives_set:
  "c \<in> set (convertedSubstantives rows) \<Longrightarrow> \<exists>r i. r \<in> set rows \<and> c = convertSubstantive r i"
  by (auto simp: convertedSubstantives_def in_set_enumerate_eq) (metis nth_mem)

lemma convertedIndeclinables_set:
  "c \<in> set (convertedIndeclinables rows) \<Longrightarrow> \<exists>r i. r \<in> set rows \<and> c = convertIndeclinable r i"
  by (auto simp: convertedIndeclinables_def in_set_enumerate_eq) (metis nth_mem)

lemma convertSubstantive_word_type:
  "convertSubstantive r i (ascii ''word_type'') = Some (ascii ''substantive'')"
  by (simp add: convertSubstantive_def Let_def)

lemma convertSubstantive_word:
  "convertSubstantive r i (ascii ''word_devanagari'') = Some (cleanText (r col_subanta))"
  by (simp add: convertSubstantive_def Let_def)

lemma convertIndeclinable_word_type:
  "convertIndeclinable r i (ascii ''word_type'') = Some (ascii ''indeclinable'')"
  by (simp add: convertIndeclinable_def)

lemma convertIndeclinable_word:
  "convertIndeclinable r i (ascii ''word_devanagari'') = Some (cleanText (r col_avyaya))"
  by (simp add: convertIndeclinable_def)

lemma substantivesHeaders_mem:
  "ascii ''word_type'' \<in> set substantivesHeaders"
  "ascii ''word_devanagari'' \<in> set substantivesHeaders"
  "ascii ''order_index'' \<in> set substantivesHeaders"
  by (simp_all add: substantivesHeaders_def)

lemma indeclinablesHeaders_mem:
  "ascii ''word_type'' \<in> set indeclinablesHeaders"
  "ascii ''word_devanagari'' \<in> set indeclinablesHeaders"
  "ascii ''order_index'' \<in> set indeclinablesHeaders"
  by (simp_all add: indeclinablesHeaders_def)

lemma trim_word_types:
  "trim (ascii ''verb'') \<noteq> []" "trim (ascii ''substantive'') \<noteq> []"
  "trim (ascii ''indeclinable'') \<noteq> []"
  by (simp_all add: trim_def ascii_def isWhiteSpace_def)

lemma substantivesCSV_reparse:
  assumes "\<And>r k v. r \<in> set rows \<Longrightarrow> r k = Some v \<Longrightarrow> newline \<notin> set v"
  shows "parseCSV (arrayToCSV (convertedSubstantives rows) substantivesHeaders)
     = map (reparsed substantivesHeaders) (convertedSubstantives rows)"
proof (rule parseCSV_arrayToCSV_reparsed [OF substantivesHeaders_ok])
  show "substantivesHeaders \<noteq> []" "substantivesHeaders \<noteq> [[]]"
    by (simp_all add: substantivesHeaders_def)
  show "\<forall>c \<in> set (convertedSubstantives rows). \<forall>h \<in> set substantivesHeaders.
      newline \<notin> set (or_empty (c h))"
    using assms by (auto dest!: convertedSubstantives_set intro!: convertSubstantive_newline_free)
  show "\<forall>c \<in> set (convertedSubstantives rows). \<exists>h \<in> set substantivesHeaders.
      trim (or_empty (c h)) \<noteq> []"
    by (auto dest!: convertedSubstantives_set intro!: bexI [of _ "ascii ''word_type''"]
        simp: convertSubstantive_word_type substantivesHeaders_mem trim_word_types)
qed

lemma indeclinablesCSV_reparse:
  assumes "\<And>r k v. r \<in> set rows \<Longrightarrow> r k = Some v \<Longrightarrow> newline \<notin> set v"
  shows "parseCSV (arrayToCSV (convertedIndeclinables rows) indeclinablesHeaders)
     = map (reparsed indeclinablesHeaders) (convertedIndeclinables rows)"
proof (rule parseCSV_arrayToCSV_reparsed [OF indeclinablesHeaders_ok])
  show "indeclinablesHeaders \<noteq> []" "indeclinablesHeaders \<noteq> [[]]"
    by (simp_all add: indeclinablesHeaders_def)
  show "\<forall>c \<in> set (convertedIndeclinables rows). \<forall>h \<in> set indeclinablesHeaders.
      newline \<notin> set (or_empty (c h))"
    using assms
    by (auto dest!: convertedIndeclinables_set intro!: convertIndeclinable_newline_free)
  show "\<forall>c \<in> set (convertedIndeclinables rows). \<exists>h \<in> set indeclinablesHeaders.
      trim (or_empty (c h)) \<noteq> []"
    by (auto dest!: convertedIndeclinables_set intro!: bexI [of _ "ascii ''word_type''"]
        simp: convertIndeclinable_word_type indeclinablesHeaders_mem trim_word_types)
qed

lemma verbsCSV_lines:
  assumes "\<And>r k v. r \<in> set rows \<Longrightarrow> r k = Some v \<Longrightarrow> newline \<notin> set v"
  shows "split_str newline (arrayToCSV (convertedVerbs rows) verbsHeaders)
     = join_str [comma] verbsHeaders # map (arrayToCSV_row verbsHeaders) (convertedVerbs rows)"
proof (rule split_arrayToCSV)
  show "\<forall>h \<in> set verbsHeaders. newline \<notin> set h"
    using verbsHeaders_ok by blast
  show "\<forall>c \<in> set (convertedVerbs rows). \<forall>h \<in> set verbsHeaders. newline \<notin> set (or_empty (c h))"
    using assms by (auto dest!: convertedVerbs_set intro!: convertVerb_newline_free)
qed

lemma substantivesCSV_lines:
  assumes "\<And>r k v. r \<in> set rows \<Longrightarrow> r k = Some v \<Longrightarrow> newline \<notin> set v"
  shows "split_str newline (arrayToCSV (convertedSubstantives rows) substantivesHeaders)
     = join_str [comma] substantivesHeaders
         # map (arrayToCSV_row substantivesHeaders) (convertedSubstantives rows)"
proof (rule split_arrayToCSV)
  show "\<forall>h \<in> set substantivesHeaders. newline \<notin> set h"
    using substantivesHeaders_ok by blast
  show "\<forall>c \<in> set (convertedSubstantives rows). \<forall>h \<in> set substantivesHeaders.
      newline \<notin> set (or_empty (c h))"
    using assms by (auto dest!: convertedSubstantives_set intro!: convertSubstantive_newline_free)
qed

lemma indeclinablesCSV_lines:
  assumes "\<And>r k v. r \<in> set rows \<Longrightarrow> r k = Some v \<Longrightarrow> newline \<notin> set v"
  shows "split_str newline (arrayToCSV (convertedIndeclinables rows) indeclinablesHeaders)
     = join_str [comma] indeclinablesHeaders
         # map (arrayToCSV_row indeclinablesHeaders) (convertedIndeclinables rows)"
proof (rule split_arrayToCSV)
  show "\<forall>h \<in> set indeclinablesHeaders. newline \<notin> set h"
    using indeclinablesHeaders_ok by blast
  show "\<forall>c \<in> set (convertedIndeclinables rows). \<forall>h \<in> set indeclinablesHeaders.
      newline \<notin> set (or_empty (c h))"
    using assms
    by (auto dest!: convertedIndeclinables_set intro!: convertIndeclinable_newline_free)
qed

text \<open>The three sheets as the script emits them, for every source text.\<close>

lemma emitted_parse:
  "parseCSV (verbsCSV content) = map (reparsed verbsHeaders) (convertedVerbs (parseCSV content))"
  "parseCSV (substantivesCSV content)
     = map (reparsed substantivesHeaders) (convertedSubstantives (parseCSV content))"
  "parseCSV (indeclinablesCSV content)
     = map (reparsed indeclinablesHeaders) (convertedIndeclinables (parseCSV content))"
  unfolding verbsCSV_def substantivesCSV_def indeclinablesCSV_def
  by (rule verbsCSV_reparse substantivesCSV_reparse indeclinablesCSV_reparse,
      erule (1) parseCSV_no_newline)+

lemma emitted_lines:
  "split_str newline (verbsCSV content)
     = join_str [comma] verbsHeaders
         # map (arrayToCSV_row verbsHeaders) (convertedVerbs (parseCSV content))"
  "split_str newline (substantivesCSV content)
     = join_str [comma] substantivesHeaders
         # map (arrayToCSV_row substantivesHeaders) (convertedSubstantives (parseCSV content))"
  "split_str newline (indeclinablesCSV content)
     = join_str [comma] indeclinablesHeaders
         # map (arrayToCSV_row indeclinablesHeaders) (convertedIndeclinables (parseCSV content))"
  unfolding verbsCSV_def substantivesCSV_def indeclinablesCSV_def
  by (rule verbsCSV_lines substantivesCSV_lines indeclinablesCSV_lines,
      erule (1) parseCSV_no_newline)+

lemma reparsed_convertSubstantive:
  "reparsed substantivesHeaders (convertSubstantive r i) (ascii ''word_devanagari'')
     = Some (cleanText (r col_subanta))"
  "reparsed substantivesHeaders (convertSubstantive r i) (ascii ''order_index'')
     = Some (String_nat (i + 1))"
  by (simp_all add: reparsed_def substantivesHeaders_mem convertSubstantive_word
      order_index_converted)

lemma reparsed_convertIndeclinable:
  "reparsed indeclinablesHeaders (convertIndeclinable r i) (ascii ''word_devanagari'')
     = Some (cleanText (r col_avyaya))"
  "reparsed indeclinablesHeaders (convertIndeclinable r i) (ascii ''order_index'')
     = Some (String_nat (i + 1))"
  by (simp_all add: reparsed_def indeclinablesHeaders_mem convertIndeclinable_word
      order_index_converted)

lemma emitted_row:
  assumes "i < length (parseCSV content)"
  shows "parseCSV (verbsCSV content) ! i
           = reparsed verbsHeaders (convertVerb (parseCSV content ! i) i)"
    "parseCSV (substantivesCSV content) ! i
           = reparsed substantivesHeaders (convertSubstantive (parseCSV content ! i) i)"
    "parseCSV (indeclinablesCSV content) ! i
           = reparsed indeclinablesHeaders (convertIndeclinable (parseCSV content ! i) i)"
  using assms by (simp_all add: emitted_parse length_converted nth_converted)


section \<open>Runs of insertions\<close>

lemma import_rows_insert_all:
  "import_rows rejects data rows db
     = insert_all rejects (map data (filter (\<lambda>r. \<not> skip_row r) rows)) db"
  by (induction rows arbitrary: db) (auto simp: create_def)

lemma insert_all_append:
  "insert_all rejects (xs @ ys) db =
     (case insert_all rejects xs db of
        (None, db1) \<Rightarrow> insert_all rejects ys db1
      | (Some e, db1) \<Rightarrow> (Some e, db1))"
  by (induction xs arbitrary: db) auto

lemma insert_all_accepted:
  "\<forall>j < length es. \<not> rejects (db @ take j es) (es ! j) \<Longrightarrow>
   insert_all rejects es db = (None, db @ es)"
proof (induction es arbitrary: db)
  case Nil
  then show ?case by simp
next
  case (Cons e es)
  from Cons.prems have "\<not> rejects db e" by force
  moreover have "\<forall>j < length es. \<not> rejects ((db @ [e]) @ take j es) (es ! j)"
  proof (intro allI impI)
    fix j assume "j < length es"
    with Cons.prems have "\<not> rejects (db @ take (Suc j) (e # es)) ((e # es) ! Suc j)"
      by (metis Suc_less_eq length_Cons)
    then show "\<not> rejects ((db @ [e]) @ take j es) (es ! j)" by simp
  qed
  ultimately show ?case using Cons.IH [of "db @ [e]"] by simp
qed

lemma insert_all_first_rejected:
  assumes "i < length es" "rejects (db @ take i es) (es ! i)"
    and "\<forall>j < i. \<not> rejects (db @ take j es) (es ! j)"
  shows "insert_all rejects es db = (Some CreateFailed, db @ take i es)"
proof -
  have es: "es = take i es @ es ! i # drop (Suc i) es"
    using assms(1) by (simp add: id_take_nth_drop)
  have "\<forall>j < length (take i es). \<not> rejects (db @ take j (take i es)) (take i es ! j)"
    using assms(1,3) by (simp add: min_def)
  then have "insert_all rejects (take i es) db = (None, db @ take i es)"
    by (rule insert_all_accepted)
  then have "insert_all rejects (take i es @ es ! i # drop (Suc i) es) db
      = (Some CreateFailed, db @ take i es)"
    using assms(2) by (simp add: insert_all_append)
  with es show ?thesis by simp
qed

lemma insert_all_rejected:
  assumes "\<exists>i < length es. rejects (db @ take i es) (es ! i)"
  shows "\<exists>i < length es. insert_all rejects es db = (Some CreateFailed, db @ take i es)"
proof -
  define P where "P i \<longleftrightarrow> i < length es \<and> rejects (db @ take i es) (es ! i)" for i
  from assms obtain i where "P i" unfolding P_def by blast
  define m where "m = (LEAST i. P i)"
  have "P m" unfolding m_def using \<open>P i\<close> by (rule LeastI)
  have "\<forall>j < m. \<not> P j" unfolding m_def using not_less_Least by blast
  then have "\<forall>j < m. \<not> rejects (db @ take j es) (es ! j)"
    using \<open>P m\<close> unfolding P_def by auto
  with \<open>P m\<close> show ?thesis
    unfolding P_def by (intro exI [of _ m]) (simp add: insert_all_first_rejected)
qed

lemma import_file_present:
  "fs (convertedDir @ name) = Some fileContent \<Longrightarrow>
   import_file rejects fs name data db = insert_all rejects (attempted data fileContent) db"
  by (simp add: import_file_def import_rows_insert_all attempted_def)

lemma up_body_present:
  assumes "fs (convertedDir @ ascii ''verbs-for-import.csv'') = Some verbs"
    and "fs (convertedDir @ ascii ''substantives-for-import.csv'') = Some substantives"
    and "fs (convertedDir @ ascii ''indeclinables-for-import.csv'') = Some indeclinables"
  shows "up_body rejects fs db
     = insert_all rejects (attempted verbData verbs @ attempted substantiveData substantives
         @ attempted indeclinableData indeclinables) db"
  using assms
  by (simp add: up_body_def import_file_present insert_all_append
      split: prod.splits option.splits)

lemma up_body_absent:
  assumes "fs (convertedDir @ ascii ''verbs-for-import.csv'') = None
    \<or> fs (convertedDir @ ascii ''substantives-for-import.csv'') = None
    \<or> fs (convertedDir @ ascii ''indeclinables-for-import.csv'') = None"
  shows "fst (up_body rejects fs db) \<noteq> None"
  using assms by (auto simp: up_body_def import_file_def split: prod.splits option.splits)

lemma up_failed: "fst (up_body rejects fs db) \<noteq> None \<Longrightarrow> up rejects fs db = (fst (up_body rejects fs db), db)"
  by (auto simp: up_def transaction_def split: prod.splits option.splits)

lemma up_succeeded: "fst (up_body rejects fs db) = None \<Longrightarrow> up rejects fs db = up_body rejects fs db"
  by (auto simp: up_def transaction_def split: prod.splits option.splits)

lemma up_error_restores: "fst (up rejects fs db) \<noteq> None \<Longrightarrow> snd (up rejects fs db) = db"
  by (auto simp: up_def transaction_def split: prod.splits option.splits)


section \<open>The example sheets, evaluated\<close>

lemmas parse_eval = parseCSV_def split_str_def newline_def trim_def isWhiteSpace_def
  parseLine_def dquote_def comma_def nextChar_def hasContent_def index_opt_def set_prop_def

lemma parse_files_abcd:
  "parseCSV file_a = [[ascii ''word_devanagari'' \<mapsto> ascii ''a'']]"
  "parseCSV file_bc = [[ascii ''word_devanagari'' \<mapsto> ascii ''b''],
      [ascii ''word_devanagari'' \<mapsto> ascii ''c'']]"
  "parseCSV file_d = [[ascii ''word_devanagari'' \<mapsto> ascii ''d'']]"
  by (simp_all add: file_a_def file_bc_def file_d_def parse_eval ascii_def del: ascii_append)

lemma trim_letters:
  "trim (ascii ''a'') \<noteq> []" "trim (ascii ''b'') \<noteq> []" "trim (ascii ''c'') \<noteq> []"
  "trim (ascii ''d'') \<noteq> []"
  by (simp_all add: trim_def ascii_def isWhiteSpace_def)

lemma attempted_files_abcd:
  "attempted verbData file_a = [verbData [ascii ''word_devanagari'' \<mapsto> ascii ''a'']]"
  "attempted substantiveData file_bc
     = [substantiveData [ascii ''word_devanagari'' \<mapsto> ascii ''b''],
        substantiveData [ascii ''word_devanagari'' \<mapsto> ascii ''c'']]"
  "attempted indeclinableData file_d
     = [indeclinableData [ascii ''word_devanagari'' \<mapsto> ascii ''d'']]"
  by (simp_all add: attempted_def parseCSV_mig_eq parse_files_abcd skip_row_def trim_letters)

lemma files_abcd_present:
  "files_abcd (convertedDir @ ascii ''verbs-for-import.csv'') = Some file_a"
  "files_abcd (convertedDir @ ascii ''substantives-for-import.csv'') = Some file_bc"
  "files_abcd (convertedDir @ ascii ''indeclinables-for-import.csv'') = Some file_d"
  by (simp_all add: files_abcd_def convertedDir_def)

lemma parse_sheet_gap:
  "parseCSV sheet_gap = [[col_dhatu \<mapsto> ascii ''x''], [col_dhatu \<mapsto> ascii ''-''],
      [col_dhatu \<mapsto> ascii ''y'']]"
  by (simp add: sheet_gap_def col_dhatu_def parse_eval ascii_def del: ascii_append)

lemma parse_sheet_blank_word:
  "parseCSV sheet_blank_word = [[col_dhatu \<mapsto> [], col_Ingles \<mapsto> ascii ''to go'']]"
  by (simp add: sheet_blank_word_def col_dhatu_def col_Ingles_def parse_eval ascii_def
      del: ascii_append)

lemma convertedVerbs_3:
  "convertedVerbs [r1, r2, r3] = [convertVerb r1 0, convertVerb r2 1, convertVerb r3 2]"
  "convertedVerbs [r1] = [convertVerb r1 0]"
  by (simp_all add: convertedVerbs_def enumerate_eq_zip upt_rec numeral_2_eq_2)

lemma cleanText_examples:
  "cleanText (Some (ascii ''x'')) = ascii ''x''" "cleanText (Some (ascii ''y'')) = ascii ''y''"
  "cleanText (Some (ascii ''-'')) = []" "cleanText (Some []) = []"
  by (simp_all add: cleanText_def trim_def isWhiteSpace_def ascii_def)

lemma parseInt_examples:
  "parseInt (String_nat (Suc 0)) = Num 1" "parseInt (String_nat 3) = Num 3"
  by (simp_all add: String_nat.simps [of "Suc 0"] String_nat.simps [of 3] digit_unit_def parseInt_def isWhiteSpace_def ascii_def
      is_digit_def digit_value_def digits_value_def Let_def)

lemma reparse_sheet_gap:
  "parseCSV (verbsCSV sheet_gap)
     = map (reparsed verbsHeaders)
         [convertVerb [col_dhatu \<mapsto> ascii ''x''] 0, convertVerb [col_dhatu \<mapsto> ascii ''-''] 1,
          convertVerb [col_dhatu \<mapsto> ascii ''y''] 2]"
  unfolding verbsCSV_def parse_sheet_gap
  by (subst verbsCSV_reparse)
    (auto simp: convertedVerbs_3 ascii_def newline_def split: if_splits)

lemma reparse_sheet_blank_word:
  "parseCSV (verbsCSV sheet_blank_word)
     = [reparsed verbsHeaders (convertVerb [col_dhatu \<mapsto> [], col_Ingles \<mapsto> ascii ''to go''] 0)]"
  unfolding verbsCSV_def parse_sheet_blank_word
  by (subst verbsCSV_reparse)
    (auto simp: convertedVerbs_3 ascii_def newline_def split: if_splits)

lemma reparse_empty_sheets:
  "parseCSV (substantivesCSV []) = []" "parseCSV (indeclinablesCSV []) = []"
proof -
  have e: "parseCSV [] = []" by (simp add: parseCSV_def split_str_def)
  show "parseCSV (substantivesCSV []) = []"
    unfolding substantivesCSV_def e
    by (subst parseCSV_arrayToCSV_reparsed [OF substantivesHeaders_ok])
      (simp_all add: convertedSubstantives_def substantivesHeaders_def)
  show "parseCSV (indeclinablesCSV []) = []"
    unfolding indeclinablesCSV_def e
    by (subst parseCSV_arrayToCSV_reparsed [OF indeclinablesHeaders_ok])
      (simp_all add: convertedIndeclinables_def indeclinablesHeaders_def)
qed

lemma convert_sheets_gap:
  "convert_script sheets_gap =
     (None, sheets_gap
        (outputDir @ ascii ''verbs-for-import.csv'' \<mapsto> verbsCSV sheet_gap,
         outputDir @ ascii ''substantives-for-import.csv'' \<mapsto> substantivesCSV [],
         outputDir @ ascii ''indeclinables-for-import.csv'' \<mapsto> indeclinablesCSV []))"
  by (simp add: convert_script_def convert_sheet_def sheets_gap_def spreadSheetsDir_def
      outputDir_def)

lemma up_sheets_gap:
  "stored_fields (ascii ''order_index'')
     (snd (up rejects_none (snd (convert_script sheets_gap)) []))
   = [Some (Num 1), Some (Num 3)]"
  by (simp add: convert_sheets_gap up_def transaction_def up_body_def import_file_def
      outputDir_def convertedDir_def parseCSV_mig_eq reparse_sheet_gap reparse_empty_sheets
      skip_reparsed_convertVerb cleanText_examples create_def rejects_none_def stored_fields_def
      verbData_order_index reparsed_convertVerb parseInt_if_present_def parseInt_examples)


section \<open>From the source sheets to the datastore\<close>

lemma digit_value_digit_unit: "d < 10 \<Longrightarrow> digit_value (digit_unit d) = Some d"
  by (simp add: digit_value_def digit_unit_def)

lemma digits_value_snoc:
  "digits_value radix (Z @ [c])
     = digits_value radix Z * radix + (case digit_value c of None \<Rightarrow> 0 | Some d \<Rightarrow> d)"
  by (simp add: digits_value_def)

lemma digits_value_String_nat: "digits_value 10 (String_nat n) = n"
proof (induction n rule: String_nat.induct)
  case (1 n)
  show ?case
  proof (cases "n < 10")
    case True
    then show ?thesis
      by (subst String_nat.simps) (simp add: digits_value_def digit_value_digit_unit)
  next
    case False
    with 1 have "digits_value 10 (String_nat (n div 10)) = n div 10" by simp
    with False show ?thesis
      by (subst String_nat.simps) (simp add: digits_value_snoc digit_value_digit_unit)
  qed
qed

lemma is_digit_String_nat: "c \<in> set (String_nat n) \<Longrightarrow> is_digit 10 c"
  by (drule String_nat_digits) (auto simp: is_digit_def digit_value_def)

lemma hd_String_nat: "48 \<le> hd (String_nat n) \<and> hd (String_nat n) \<le> 57"
  using String_nat_digits [of "hd (String_nat n)" n] by simp

lemma parseInt_String_nat: "parseInt (String_nat n) = Num (int n)"
proof -
  let ?S = "String_nat n"
  have 1: "dropWhile isWhiteSpace ?S = ?S"
    using hd_String_nat [of n] by (simp add: dropWhile_eq_self_iff isWhiteSpace_def)
  have 2: "hd ?S \<noteq> 0x2D" "hd ?S \<noteq> 0x2B"
    using hd_String_nat [of n] by auto
  have "120 \<notin> set ?S" "88 \<notin> set ?S"
    by (auto dest: String_nat_digits)
  then have "120 \<notin> set (take 2 ?S)" "88 \<notin> set (take 2 ?S)"
    by (auto dest: in_set_takeD)
  then have 3: "take 2 ?S \<noteq> ascii ''0x''" "take 2 ?S \<noteq> ascii ''0X''"
    by (auto simp: ascii_def)
  have 4: "takeWhile (is_digit 10) ?S = ?S"
    by (simp add: takeWhile_eq_all_conv is_digit_String_nat)
  show ?thesis
    unfolding parseInt_def Let_def 1 using 2 3
    by (simp add: 4 digits_value_String_nat del: takeWhile_eq_all_conv)
qed

lemma parseInt_if_present_String_nat:
  "parseInt_if_present (Some (String_nat n)) = Num (int n)"
  by (simp add: parseInt_if_present_def parseInt_String_nat)

lemma order_index_data:
  "map_of (verbData r) (ascii ''order_index'') = Some (parseInt_if_present (r (ascii ''order_index'')))"
  "map_of (substantiveData r) (ascii ''order_index'')
     = Some (parseInt_if_present (r (ascii ''order_index'')))"
  "map_of (indeclinableData r) (ascii ''order_index'')
     = Some (parseInt_if_present (r (ascii ''order_index'')))"
  by (simp_all add: verbData_def substantiveData_def indeclinableData_def)

lemma skip_reparsed_convert:
  "skip_row (reparsed verbsHeaders (convertVerb r i)) \<longleftrightarrow> cleanText (r col_dhatu) = []"
  "skip_row (reparsed substantivesHeaders (convertSubstantive r i))
     \<longleftrightarrow> cleanText (r col_subanta) = []"
  "skip_row (reparsed indeclinablesHeaders (convertIndeclinable r i))
     \<longleftrightarrow> cleanText (r col_avyaya) = []"
  by (simp_all add: skip_row_def reparsed_convertVerb reparsed_convertSubstantive
      reparsed_convertIndeclinable)

lemma stored_order_verbs:
  "stored_fields (ascii ''order_index'') (attempted verbData (verbsCSV content))
     = kept_order col_dhatu (parseCSV content)"
  by (simp add: stored_fields_def attempted_def parseCSV_mig_eq emitted_parse convertedVerbs_def
      kept_order_def filter_map comp_def case_prod_unfold skip_reparsed_convert order_index_data
      reparsed_convertVerb parseInt_if_present_String_nat)

lemma stored_order_substantives:
  "stored_fields (ascii ''order_index'') (attempted substantiveData (substantivesCSV content))
     = kept_order col_subanta (parseCSV content)"
  by (simp add: stored_fields_def attempted_def parseCSV_mig_eq emitted_parse
      convertedSubstantives_def kept_order_def filter_map comp_def case_prod_unfold
      skip_reparsed_convert order_index_data reparsed_convertSubstantive
      parseInt_if_present_String_nat)

lemma stored_order_indeclinables:
  "stored_fields (ascii ''order_index'') (attempted indeclinableData (indeclinablesCSV content))
     = kept_order col_avyaya (parseCSV content)"
  by (simp add: stored_fields_def attempted_def parseCSV_mig_eq emitted_parse
      convertedIndeclinables_def kept_order_def filter_map comp_def case_prod_unfold
      skip_reparsed_convert order_index_data reparsed_convertIndeclinable
      parseInt_if_present_String_nat)

lemma convert_script_present:
  assumes "fs (spreadSheetsDir @ ascii ''Vocabulario Glide - Verbos.csv'') = Some verbs"
    and "fs (spreadSheetsDir @ ascii ''Vocabulario Glide - Sustantivos.csv'') = Some substantives"
    and "fs (spreadSheetsDir @ ascii ''Vocabulario Glide - Indeclinables.csv'')
       = Some indeclinables"
  shows "convert_script fs =
     (None, fs
        (outputDir @ ascii ''verbs-for-import.csv'' \<mapsto> verbsCSV verbs,
         outputDir @ ascii ''substantives-for-import.csv'' \<mapsto> substantivesCSV substantives,
         outputDir @ ascii ''indeclinables-for-import.csv'' \<mapsto> indeclinablesCSV indeclinables))"
  using assms
  by (simp add: convert_script_def convert_sheet_def spreadSheetsDir_def outputDir_def)

lemma up_accepting:
  assumes "fs (convertedDir @ ascii ''verbs-for-import.csv'') = Some verbs"
    and "fs (convertedDir @ ascii ''substantives-for-import.csv'') = Some substantives"
    and "fs (convertedDir @ ascii ''indeclinables-for-import.csv'') = Some indeclinables"
  shows "up rejects_none fs db
     = (None, db @ attempted verbData verbs @ attempted substantiveData substantives
         @ attempted indeclinableData indeclinables)"
proof -
  have "up_body rejects_none fs db
     = (None, db @ attempted verbData verbs @ attempted substantiveData substantives
         @ attempted indeclinableData indeclinables)"
    unfolding up_body_present [OF assms]
    by (rule insert_all_accepted) (simp add: rejects_none_def)
  then show ?thesis by (simp add: up_succeeded)
qed

lemma convert_then_import:
  assumes "fs (spreadSheetsDir @ ascii ''Vocabulario Glide - Verbos.csv'') = Some verbs"
    and "fs (spreadSheetsDir @ ascii ''Vocabulario Glide - Sustantivos.csv'') = Some substantives"
    and "fs (spreadSheetsDir @ ascii ''Vocabulario Glide - Indeclinables.csv'')
       = Some indeclinables"
  shows "up rejects_none (snd (convert_script fs)) db
     = (None, db @ attempted verbData (verbsCSV verbs)
         @ attempted substantiveData (substantivesCSV substantives)
         @ attempted indeclinableData (indeclinablesCSV indeclinables))"
  unfolding convert_script_present [OF assms]
  by (subst up_accepting) (simp_all add: outputDir_def convertedDir_def)

lemma stored_fields_append:
  "stored_fields k (a @ b) = stored_fields k a @ stored_fields k b"
  by (simp add: stored_fields_def)

lemma persisted_order:
  assumes "fs (spreadSheetsDir @ ascii ''Vocabulario Glide - Verbos.csv'') = Some verbs"
    and "fs (spreadSheetsDir @ ascii ''Vocabulario Glide - Sustantivos.csv'') = Some substantives"
    and "fs (spreadSheetsDir @ ascii ''Vocabulario Glide - Indeclinables.csv'')
       = Some indeclinables"
  shows "stored_fields (ascii ''order_index'') (snd (up rejects_none (snd (convert_script fs)) []))
     = kept_order col_dhatu (parseCSV verbs) @ kept_order col_subanta (parseCSV substantives)
         @ kept_order col_avyaya (parseCSV indeclinables)"
  by (simp add: convert_then_import [OF assms] stored_fields_append stored_order_verbs
      stored_order_substantives stored_order_indeclinables)


section \<open>Orchestration\<close>

text \<open>
  C3. The import pass is all-or-nothing over the whole run. \<^verbatim>\<open>up\<close> runs the three loops
  inside one transaction and each \<^verbatim>\<open>catch\<close> throws the error again. With the three files
  in place, the records that the run tries to insert are those of the verbs file, then
  those of the substantives file, then those of the indeclinables file. If the insertion at
  position \<open>i\<close> of that sequence, in whichever loop it falls, is the first that throws,
  the body stops there with the \<open>i\<close> earlier records inserted, and the run fails and leaves
  the datastore exactly as it was before the run; so a run in which any insertion throws
  leaves no record of that run. If no insertion throws, the run succeeds and has added
  all the records. A missing file fails the run in the same way, and no failed run changes
  the datastore.
\<close>

theorem import_all_or_nothing:
  "(fs (convertedDir @ ascii ''verbs-for-import.csv'') = Some verbs
      \<and> fs (convertedDir @ ascii ''substantives-for-import.csv'') = Some substantives
      \<and> fs (convertedDir @ ascii ''indeclinables-for-import.csv'') = Some indeclinables
     \<longrightarrow> (let entries = attempted verbData verbs @ attempted substantiveData substantives
                 @ attempted indeclinableData indeclinables
          in (i < length entries \<and> rejects (db @ take i entries) (entries ! i)
                \<and> (\<forall>j < i. \<not> rejects (db @ take j entries) (entries ! j))
               \<longrightarrow> up_body rejects fs db = (Some CreateFailed, db @ take i entries)
                   \<and> up rejects fs db = (Some CreateFailed, db))
           \<and> ((\<exists>j < length entries. rejects (db @ take j entries) (entries ! j))
               \<longrightarrow> up rejects fs db = (Some CreateFailed, db))
           \<and> ((\<forall>j < length entries. \<not> rejects (db @ take j entries) (entries ! j))
               \<longrightarrow> up rejects fs db = (None, db @ entries))))
   \<and> (fs (convertedDir @ ascii ''verbs-for-import.csv'') = None
        \<or> fs (convertedDir @ ascii ''substantives-for-import.csv'') = None
        \<or> fs (convertedDir @ ascii ''indeclinables-for-import.csv'') = None
       \<longrightarrow> fst (up rejects fs db) \<noteq> None \<and> snd (up rejects fs db) = db)
   \<and> (fst (up rejects fs db) \<noteq> None \<longrightarrow> snd (up rejects fs db) = db)
   \<and> fst (up rejects fs db) = fst (up_body rejects fs db)
   \<and> (fst (up_body rejects fs db) \<noteq> None \<longrightarrow> snd (up rejects fs db) = db)
   \<and> (fst (up_body rejects fs db) = None \<longrightarrow> snd (up rejects fs db) = snd (up_body rejects fs db))"
proof -
  have A: "fs (convertedDir @ ascii ''verbs-for-import.csv'') = Some verbs
      \<and> fs (convertedDir @ ascii ''substantives-for-import.csv'') = Some substantives
      \<and> fs (convertedDir @ ascii ''indeclinables-for-import.csv'') = Some indeclinables
     \<longrightarrow> (let entries = attempted verbData verbs @ attempted substantiveData substantives
                 @ attempted indeclinableData indeclinables
          in (i < length entries \<and> rejects (db @ take i entries) (entries ! i)
                \<and> (\<forall>j < i. \<not> rejects (db @ take j entries) (entries ! j))
               \<longrightarrow> up_body rejects fs db = (Some CreateFailed, db @ take i entries)
                   \<and> up rejects fs db = (Some CreateFailed, db))
           \<and> ((\<exists>j < length entries. rejects (db @ take j entries) (entries ! j))
               \<longrightarrow> up rejects fs db = (Some CreateFailed, db))
           \<and> ((\<forall>j < length entries. \<not> rejects (db @ take j entries) (entries ! j))
               \<longrightarrow> up rejects fs db = (None, db @ entries)))"
  proof (intro impI, elim conjE)
    assume f: "fs (convertedDir @ ascii ''verbs-for-import.csv'') = Some verbs"
      "fs (convertedDir @ ascii ''substantives-for-import.csv'') = Some substantives"
      "fs (convertedDir @ ascii ''indeclinables-for-import.csv'') = Some indeclinables"
    define entries where "entries = attempted verbData verbs
      @ attempted substantiveData substantives @ attempted indeclinableData indeclinables"
    have body: "up_body rejects fs db = insert_all rejects entries db"
      unfolding entries_def by (rule up_body_present [OF f])
    have a: "i < length entries \<and> rejects (db @ take i entries) (entries ! i)
          \<and> (\<forall>j < i. \<not> rejects (db @ take j entries) (entries ! j))
        \<longrightarrow> up_body rejects fs db = (Some CreateFailed, db @ take i entries)
            \<and> up rejects fs db = (Some CreateFailed, db)"
    proof (intro impI, elim conjE)
      assume h: "i < length entries" "rejects (db @ take i entries) (entries ! i)"
        "\<forall>j < i. \<not> rejects (db @ take j entries) (entries ! j)"
      have "up_body rejects fs db = (Some CreateFailed, db @ take i entries)"
        unfolding body by (rule insert_all_first_rejected [OF h])
      then show "up_body rejects fs db = (Some CreateFailed, db @ take i entries)
          \<and> up rejects fs db = (Some CreateFailed, db)"
        by (simp add: up_failed)
    qed
    have b: "(\<exists>j < length entries. rejects (db @ take j entries) (entries ! j))
        \<longrightarrow> up rejects fs db = (Some CreateFailed, db)"
    proof
      assume "\<exists>j < length entries. rejects (db @ take j entries) (entries ! j)"
      from insert_all_rejected [OF this] obtain k where
        "insert_all rejects entries db = (Some CreateFailed, db @ take k entries)" by blast
      with body show "up rejects fs db = (Some CreateFailed, db)"
        by (simp add: up_failed)
    qed
    have c: "(\<forall>j < length entries. \<not> rejects (db @ take j entries) (entries ! j))
        \<longrightarrow> up rejects fs db = (None, db @ entries)"
    proof
      assume "\<forall>j < length entries. \<not> rejects (db @ take j entries) (entries ! j)"
      then have "insert_all rejects entries db = (None, db @ entries)"
        by (rule insert_all_accepted)
      with body show "up rejects fs db = (None, db @ entries)"
        by (simp add: up_succeeded)
    qed
    from a b c show "let entries = attempted verbData verbs
          @ attempted substantiveData substantives @ attempted indeclinableData indeclinables
        in (i < length entries \<and> rejects (db @ take i entries) (entries ! i)
                \<and> (\<forall>j < i. \<not> rejects (db @ take j entries) (entries ! j))
               \<longrightarrow> up_body rejects fs db = (Some CreateFailed, db @ take i entries)
                   \<and> up rejects fs db = (Some CreateFailed, db))
           \<and> ((\<exists>j < length entries. rejects (db @ take j entries) (entries ! j))
               \<longrightarrow> up rejects fs db = (Some CreateFailed, db))
           \<and> ((\<forall>j < length entries. \<not> rejects (db @ take j entries) (entries ! j))
               \<longrightarrow> up rejects fs db = (None, db @ entries))"
      unfolding Let_def entries_def by (intro conjI)
  qed
  have B: "fs (convertedDir @ ascii ''verbs-for-import.csv'') = None
        \<or> fs (convertedDir @ ascii ''substantives-for-import.csv'') = None
        \<or> fs (convertedDir @ ascii ''indeclinables-for-import.csv'') = None
       \<longrightarrow> fst (up rejects fs db) \<noteq> None \<and> snd (up rejects fs db) = db"
  proof
    assume "fs (convertedDir @ ascii ''verbs-for-import.csv'') = None
        \<or> fs (convertedDir @ ascii ''substantives-for-import.csv'') = None
        \<or> fs (convertedDir @ ascii ''indeclinables-for-import.csv'') = None"
    then have "fst (up_body rejects fs db) \<noteq> None" by (rule up_body_absent)
    then show "fst (up rejects fs db) \<noteq> None \<and> snd (up rejects fs db) = db"
      by (simp add: up_failed)
  qed
  have C: "fst (up rejects fs db) \<noteq> None \<longrightarrow> snd (up rejects fs db) = db"
    by (simp add: up_error_restores)
  have D: "fst (up rejects fs db) = fst (up_body rejects fs db)"
    by (cases "fst (up_body rejects fs db) = None") (simp_all add: up_succeeded up_failed)
  have E: "fst (up_body rejects fs db) \<noteq> None \<longrightarrow> snd (up rejects fs db) = db"
    by (simp add: up_failed)
  have F: "fst (up_body rejects fs db) = None
      \<longrightarrow> snd (up rejects fs db) = snd (up_body rejects fs db)"
    by (simp add: up_succeeded)
  show ?thesis
    by (intro conjI) (rule A B C D E F)+
qed

theorem import_all_or_nothing_witness:
  "up_body rejects_second files_abcd []
     = (Some CreateFailed, [verbData [ascii ''word_devanagari'' \<mapsto> ascii ''a'']])
   \<and> up rejects_second files_abcd [] = (Some CreateFailed, [])
   \<and> up rejects_none files_abcd []
     = (None, [verbData [ascii ''word_devanagari'' \<mapsto> ascii ''a''],
               substantiveData [ascii ''word_devanagari'' \<mapsto> ascii ''b''],
               substantiveData [ascii ''word_devanagari'' \<mapsto> ascii ''c''],
               indeclinableData [ascii ''word_devanagari'' \<mapsto> ascii ''d'']])
   \<and> fst (up rejects_none Map.empty []) \<noteq> None
   \<and> snd (up rejects_none Map.empty []) = []"
proof -
  note second = import_all_or_nothing [where fs = files_abcd and verbs = file_a
      and substantives = file_bc and indeclinables = file_d and i = 1
      and rejects = rejects_second and db = "[]"]
  note none = import_all_or_nothing [where fs = files_abcd and verbs = file_a
      and substantives = file_bc and indeclinables = file_d and i = 0
      and rejects = rejects_none and db = "[]"]
  note absent = import_all_or_nothing [where fs = Map.empty and rejects = rejects_none
      and db = "[]"]
  from second have 1: "up_body rejects_second files_abcd []
     = (Some CreateFailed, [verbData [ascii ''word_devanagari'' \<mapsto> ascii ''a'']])
   \<and> up rejects_second files_abcd [] = (Some CreateFailed, [])"
    by (simp add: files_abcd_present attempted_files_abcd Let_def rejects_second_def)
  from none have 2: "up rejects_none files_abcd []
     = (None, [verbData [ascii ''word_devanagari'' \<mapsto> ascii ''a''],
               substantiveData [ascii ''word_devanagari'' \<mapsto> ascii ''b''],
               substantiveData [ascii ''word_devanagari'' \<mapsto> ascii ''c''],
               indeclinableData [ascii ''word_devanagari'' \<mapsto> ascii ''d'']])"
    by (simp add: files_abcd_present attempted_files_abcd Let_def rejects_none_def)
  have "Map.empty (convertedDir @ ascii ''verbs-for-import.csv'') = (None :: jstring option)"
    by simp
  with absent have 3: "fst (up rejects_none Map.empty []) \<noteq> None
   \<and> snd (up rejects_none Map.empty []) = []"
    by blast
  from 1 2 3 show ?thesis by (intro conjI) simp_all
qed

lemma String_nat_small:
  "String_nat (Suc 0) = ascii ''1''" "String_nat (Suc (Suc 0)) = ascii ''2''"
  "String_nat 3 = ascii ''3''"
  by (subst String_nat.simps, simp add: digit_unit_def ascii_def)+

lemma col_dhatu_neq_col_Ingles [simp]: "col_dhatu \<noteq> col_Ingles" "col_Ingles \<noteq> col_dhatu"
  by (simp_all add: col_dhatu_def col_Ingles_def)

text \<open>
  C2, as stated, at a verbs sheet whose one row has an empty \<^verbatim>\<open>dhatu\<close>: the conversion
  script has no filter, so the normalized CSV has a header line and one data row, and that
  row has an empty \<^verbatim>\<open>word_devanagari\<close>.
\<close>

theorem blank_word_emitted_by_convert:
  "row_fields col_dhatu (parseCSV sheet_blank_word) = [Some []]
   \<and> length (split_str newline (verbsCSV sheet_blank_word)) = 2
   \<and> row_fields (ascii ''word_devanagari'') (parseCSV (verbsCSV sheet_blank_word)) = [Some []]
   \<and> row_fields (ascii ''word_devanagari'') (parseCSV_mig (verbsCSV sheet_blank_word)) = [Some []]"
proof -
  have 1: "row_fields col_dhatu (parseCSV sheet_blank_word) = [Some []]"
    by (simp add: parse_sheet_blank_word row_fields_def col_dhatu_def col_Ingles_def ascii_def
        del: ascii_append)
  have "split_str newline (verbsCSV sheet_blank_word)
     = join_str [comma] verbsHeaders # map (arrayToCSV_row verbsHeaders)
         (convertedVerbs [[col_dhatu \<mapsto> [], col_Ingles \<mapsto> ascii ''to go'']])"
    unfolding verbsCSV_def parse_sheet_blank_word
    by (rule verbsCSV_lines) (auto simp: ascii_def newline_def split: if_splits)
  then have 2: "length (split_str newline (verbsCSV sheet_blank_word)) = 2"
    by (simp add: convertedVerbs_3)
  have 3: "row_fields (ascii ''word_devanagari'') (parseCSV (verbsCSV sheet_blank_word))
      = [Some []]"
    by (simp add: reparse_sheet_blank_word row_fields_def reparsed_convertVerb
        cleanText_examples)
  from 1 2 3 show ?thesis by (simp add: parseCSV_mig_eq)
qed

text \<open>
  C2, amended. The import pass discards every row whose \<^verbatim>\<open>word_devanagari\<close> is absent
  or empty after trimming: the loop goes on as if the row were not there, and every record
  that a run adds to the datastore has a \<^verbatim>\<open>word_devanagari\<close> that is not blank. The
  convert pass discards nothing. For every source text, the file that it writes for a sheet
  is the header line followed by one line for each row that the parser returned, in order,
  and the row at each position of the written file, as the import pass parses it, carries
  as its \<^verbatim>\<open>word_devanagari\<close> the cleaned headword of the source row at that position:
  the empty string where the source headword is absent, a dash or blank. With the three
  source sheets in place the script writes exactly these three files.
\<close>

theorem blank_word_not_inserted:
  "(r (ascii ''word_devanagari'') = None
      \<or> (\<exists>w. r (ascii ''word_devanagari'') = Some w \<and> trim w = [])
     \<longrightarrow> import_rows rejects data (r # rest) db = import_rows rejects data rest db)
   \<and> (\<exists>new. snd (up_body rejects fs db) = db @ new \<and> (\<forall>e \<in> set new. has_word e))
   \<and> (\<exists>new. snd (up rejects fs db) = db @ new \<and> (\<forall>e \<in> set new. has_word e))
   \<and> length (convertedVerbs rows) = length rows
   \<and> length (convertedSubstantives rows) = length rows
   \<and> length (convertedIndeclinables rows) = length rows
   \<and> split_str newline (verbsCSV content)
       = join_str [comma] verbsHeaders
           # map (arrayToCSV_row verbsHeaders) (convertedVerbs (parseCSV content))
   \<and> split_str newline (substantivesCSV content)
       = join_str [comma] substantivesHeaders
           # map (arrayToCSV_row substantivesHeaders) (convertedSubstantives (parseCSV content))
   \<and> split_str newline (indeclinablesCSV content)
       = join_str [comma] indeclinablesHeaders
           # map (arrayToCSV_row indeclinablesHeaders)
               (convertedIndeclinables (parseCSV content))
   \<and> length (parseCSV_mig (verbsCSV content)) = length (parseCSV content)
   \<and> length (parseCSV_mig (substantivesCSV content)) = length (parseCSV content)
   \<and> length (parseCSV_mig (indeclinablesCSV content)) = length (parseCSV content)
   \<and> (\<forall>i < length (parseCSV content).
        (parseCSV_mig (verbsCSV content) ! i) (ascii ''word_devanagari'')
          = Some (cleanText ((parseCSV content ! i) col_dhatu))
        \<and> (parseCSV_mig (substantivesCSV content) ! i) (ascii ''word_devanagari'')
          = Some (cleanText ((parseCSV content ! i) col_subanta))
        \<and> (parseCSV_mig (indeclinablesCSV content) ! i) (ascii ''word_devanagari'')
          = Some (cleanText ((parseCSV content ! i) col_avyaya)))
   \<and> (sheets (spreadSheetsDir @ ascii ''Vocabulario Glide - Verbos.csv'') = Some verbs
        \<and> sheets (spreadSheetsDir @ ascii ''Vocabulario Glide - Sustantivos.csv'')
            = Some substantives
        \<and> sheets (spreadSheetsDir @ ascii ''Vocabulario Glide - Indeclinables.csv'')
            = Some indeclinables
       \<longrightarrow> convert_script sheets =
          (None, sheets
             (outputDir @ ascii ''verbs-for-import.csv'' \<mapsto> verbsCSV verbs,
              outputDir @ ascii ''substantives-for-import.csv'' \<mapsto> substantivesCSV substantives,
              outputDir @ ascii ''indeclinables-for-import.csv''
                \<mapsto> indeclinablesCSV indeclinables)))"
proof -
  have A: "r (ascii ''word_devanagari'') = None
      \<or> (\<exists>w. r (ascii ''word_devanagari'') = Some w \<and> trim w = [])
     \<longrightarrow> import_rows rejects data (r # rest) db = import_rows rejects data rest db"
    by (auto simp: skip_row_def)
  have B: "length (parseCSV_mig (verbsCSV content)) = length (parseCSV content)"
    "length (parseCSV_mig (substantivesCSV content)) = length (parseCSV content)"
    "length (parseCSV_mig (indeclinablesCSV content)) = length (parseCSV content)"
    by (simp_all add: parseCSV_mig_eq emitted_parse length_converted)
  have C: "\<forall>i < length (parseCSV content).
        (parseCSV_mig (verbsCSV content) ! i) (ascii ''word_devanagari'')
          = Some (cleanText ((parseCSV content ! i) col_dhatu))
        \<and> (parseCSV_mig (substantivesCSV content) ! i) (ascii ''word_devanagari'')
          = Some (cleanText ((parseCSV content ! i) col_subanta))
        \<and> (parseCSV_mig (indeclinablesCSV content) ! i) (ascii ''word_devanagari'')
          = Some (cleanText ((parseCSV content ! i) col_avyaya))"
    by (simp add: parseCSV_mig_eq emitted_row reparsed_convertVerb reparsed_convertSubstantive
        reparsed_convertIndeclinable)
  have D: "sheets (spreadSheetsDir @ ascii ''Vocabulario Glide - Verbos.csv'') = Some verbs
        \<and> sheets (spreadSheetsDir @ ascii ''Vocabulario Glide - Sustantivos.csv'')
            = Some substantives
        \<and> sheets (spreadSheetsDir @ ascii ''Vocabulario Glide - Indeclinables.csv'')
            = Some indeclinables
       \<longrightarrow> convert_script sheets =
          (None, sheets
             (outputDir @ ascii ''verbs-for-import.csv'' \<mapsto> verbsCSV verbs,
              outputDir @ ascii ''substantives-for-import.csv'' \<mapsto> substantivesCSV substantives,
              outputDir @ ascii ''indeclinables-for-import.csv''
                \<mapsto> indeclinablesCSV indeclinables))"
    using convert_script_present [of sheets verbs substantives indeclinables] by blast
  show ?thesis
    by (intro conjI)
      (rule A up_body_grows up_grows length_converted emitted_lines B C D)+
qed

lemma map_two: "length xs = 2 \<Longrightarrow> \<forall>e \<in> set xs. P e \<Longrightarrow> map P xs = [True, True]"
  by (auto simp: numeral_2_eq_2 length_Suc_conv)

lemma sheets_gap_present:
  "sheets_gap (spreadSheetsDir @ ascii ''Vocabulario Glide - Verbos.csv'') = Some sheet_gap"
  "sheets_gap (spreadSheetsDir @ ascii ''Vocabulario Glide - Sustantivos.csv'') = Some []"
  "sheets_gap (spreadSheetsDir @ ascii ''Vocabulario Glide - Indeclinables.csv'') = Some []"
  by (simp_all add: sheets_gap_def spreadSheetsDir_def)

theorem blank_word_not_inserted_witness:
  "trim (ascii '' '') = []
   \<and> import_rows rejects_none verbData
        ([ascii ''word_devanagari'' \<mapsto> ascii '' ''] # [[ascii ''word_devanagari'' \<mapsto> ascii ''a'']]) []
      = import_rows rejects_none verbData [[ascii ''word_devanagari'' \<mapsto> ascii ''a'']] []
   \<and> map has_word (snd (up rejects_none (snd (convert_script sheets_gap)) [])) = [True, True]
   \<and> (parseCSV sheet_gap ! 1) col_dhatu = Some (ascii ''-'')
   \<and> (parseCSV_mig (verbsCSV sheet_gap) ! 1) (ascii ''word_devanagari'') = Some []
   \<and> length (split_str newline (verbsCSV sheet_gap)) = 4
   \<and> convert_script sheets_gap =
       (None, sheets_gap
          (outputDir @ ascii ''verbs-for-import.csv'' \<mapsto> verbsCSV sheet_gap,
           outputDir @ ascii ''substantives-for-import.csv'' \<mapsto> substantivesCSV [],
           outputDir @ ascii ''indeclinables-for-import.csv'' \<mapsto> indeclinablesCSV []))"
proof -
  note t = blank_word_not_inserted [where r = "[ascii ''word_devanagari'' \<mapsto> ascii '' '']"
      and rejects = rejects_none and data = verbData
      and rest = "[[ascii ''word_devanagari'' \<mapsto> ascii ''a'']]" and db = "[]"
      and fs = "snd (convert_script sheets_gap)" and content = sheet_gap
      and sheets = sheets_gap and verbs = sheet_gap and substantives = "[]"
      and indeclinables = "[]"]
  have blank: "trim (ascii '' '') = []"
    by (simp add: trim_def ascii_def isWhiteSpace_def)
  with t have 1: "import_rows rejects_none verbData
        ([ascii ''word_devanagari'' \<mapsto> ascii '' ''] # [[ascii ''word_devanagari'' \<mapsto> ascii ''a'']]) []
      = import_rows rejects_none verbData [[ascii ''word_devanagari'' \<mapsto> ascii ''a'']] []"
    by simp
  from t have all: "\<forall>e \<in> set (snd (up rejects_none (snd (convert_script sheets_gap)) [])). has_word e"
    by auto
  have "length (stored_fields (ascii ''order_index'')
      (snd (up rejects_none (snd (convert_script sheets_gap)) []))) = 2"
    by (simp only: up_sheets_gap) simp
  then have "length (snd (up rejects_none (snd (convert_script sheets_gap)) [])) = 2"
    by (simp add: stored_fields_def)
  note 2 = map_two [OF this all]
  have 3: "(parseCSV sheet_gap ! 1) col_dhatu = Some (ascii ''-'')"
    by (simp add: parse_sheet_gap)
  from t have "\<forall>i < length (parseCSV sheet_gap).
      (parseCSV_mig (verbsCSV sheet_gap) ! i) (ascii ''word_devanagari'')
          = Some (cleanText ((parseCSV sheet_gap ! i) col_dhatu))"
    by blast
  then have "(parseCSV_mig (verbsCSV sheet_gap) ! 1) (ascii ''word_devanagari'')
          = Some (cleanText ((parseCSV sheet_gap ! 1) col_dhatu))"
    by (simp add: parse_sheet_gap)
  with 3 have 4: "(parseCSV_mig (verbsCSV sheet_gap) ! 1) (ascii ''word_devanagari'') = Some []"
    by (simp add: cleanText_examples)
  from t have "split_str newline (verbsCSV sheet_gap)
       = join_str [comma] verbsHeaders
           # map (arrayToCSV_row verbsHeaders) (convertedVerbs (parseCSV sheet_gap))"
    by blast
  then have 5: "length (split_str newline (verbsCSV sheet_gap)) = 4"
    by (simp add: parse_sheet_gap convertedVerbs_3)
  from t sheets_gap_present have 6: "convert_script sheets_gap =
       (None, sheets_gap
          (outputDir @ ascii ''verbs-for-import.csv'' \<mapsto> verbsCSV sheet_gap,
           outputDir @ ascii ''substantives-for-import.csv'' \<mapsto> substantivesCSV [],
           outputDir @ ascii ''indeclinables-for-import.csv'' \<mapsto> indeclinablesCSV []))"
    by blast
  from blank 1 2 3 4 5 6 show ?thesis by (intro conjI)
qed

text \<open>
  C4. For every source text and each of the three sheets, the file that the script writes
  has as many rows as the parser returned for the source, and the row at position \<open>i\<close>
  (counting from 0) carries \<^verbatim>\<open>order_index\<close> \<open>i + 1\<close>, whatever its headword: the number is
  the position among all parsed rows, and no row is left out before numbering. When the
  three written files are then imported into a datastore that accepts every insertion, the
  persisted \<^verbatim>\<open>order_index\<close> values are, sheet after sheet, the positions of the rows whose
  headword is not empty. So the persisted values may have gaps: for the verbs sheet with
  the rows \<^verbatim>\<open>x\<close>, \<^verbatim>\<open>-\<close>, \<^verbatim>\<open>y\<close> the written rows are numbered 1, 2, 3, the second has an
  empty headword, and the import stores the values 1 and 3.
\<close>

theorem order_index_pre_filter:
  "length (parseCSV_mig (verbsCSV content)) = length (parseCSV content)
   \<and> length (parseCSV_mig (substantivesCSV content)) = length (parseCSV content)
   \<and> length (parseCSV_mig (indeclinablesCSV content)) = length (parseCSV content)
   \<and> (\<forall>i < length (parseCSV content).
        (parseCSV_mig (verbsCSV content) ! i) (ascii ''order_index'') = Some (String_nat (i + 1))
        \<and> (parseCSV_mig (substantivesCSV content) ! i) (ascii ''order_index'')
            = Some (String_nat (i + 1))
        \<and> (parseCSV_mig (indeclinablesCSV content) ! i) (ascii ''order_index'')
            = Some (String_nat (i + 1))
        \<and> (convertedVerbs (parseCSV content) ! i) (ascii ''order_index'')
            = Some (String_nat (i + 1))
        \<and> (convertedSubstantives (parseCSV content) ! i) (ascii ''order_index'')
            = Some (String_nat (i + 1))
        \<and> (convertedIndeclinables (parseCSV content) ! i) (ascii ''order_index'')
            = Some (String_nat (i + 1)))
   \<and> (fs (spreadSheetsDir @ ascii ''Vocabulario Glide - Verbos.csv'') = Some verbs
        \<and> fs (spreadSheetsDir @ ascii ''Vocabulario Glide - Sustantivos.csv'') = Some substantives
        \<and> fs (spreadSheetsDir @ ascii ''Vocabulario Glide - Indeclinables.csv'')
            = Some indeclinables
       \<longrightarrow> stored_fields (ascii ''order_index'')
             (snd (up rejects_none (snd (convert_script fs)) []))
           = kept_order col_dhatu (parseCSV verbs) @ kept_order col_subanta (parseCSV substantives)
               @ kept_order col_avyaya (parseCSV indeclinables))
   \<and> row_fields (ascii ''word_devanagari'') (parseCSV_mig (verbsCSV sheet_gap))
       = [Some (ascii ''x''), Some [], Some (ascii ''y'')]
   \<and> row_fields (ascii ''order_index'') (parseCSV_mig (verbsCSV sheet_gap))
       = [Some (ascii ''1''), Some (ascii ''2''), Some (ascii ''3'')]
   \<and> stored_fields (ascii ''order_index'')
        (snd (up rejects_none (snd (convert_script sheets_gap)) []))
       = [Some (Num 1), Some (Num 3)]"
proof -
  note s = String_nat_small
  have A: "length (parseCSV_mig (verbsCSV content)) = length (parseCSV content)"
    "length (parseCSV_mig (substantivesCSV content)) = length (parseCSV content)"
    "length (parseCSV_mig (indeclinablesCSV content)) = length (parseCSV content)"
    by (simp_all add: parseCSV_mig_eq emitted_parse length_converted)
  have B: "\<forall>i < length (parseCSV content).
        (parseCSV_mig (verbsCSV content) ! i) (ascii ''order_index'') = Some (String_nat (i + 1))
        \<and> (parseCSV_mig (substantivesCSV content) ! i) (ascii ''order_index'')
            = Some (String_nat (i + 1))
        \<and> (parseCSV_mig (indeclinablesCSV content) ! i) (ascii ''order_index'')
            = Some (String_nat (i + 1))
        \<and> (convertedVerbs (parseCSV content) ! i) (ascii ''order_index'')
            = Some (String_nat (i + 1))
        \<and> (convertedSubstantives (parseCSV content) ! i) (ascii ''order_index'')
            = Some (String_nat (i + 1))
        \<and> (convertedIndeclinables (parseCSV content) ! i) (ascii ''order_index'')
            = Some (String_nat (i + 1))"
    by (simp add: parseCSV_mig_eq emitted_row reparsed_convertVerb reparsed_convertSubstantive
        reparsed_convertIndeclinable nth_converted order_index_converted)
  have C: "fs (spreadSheetsDir @ ascii ''Vocabulario Glide - Verbos.csv'') = Some verbs
        \<and> fs (spreadSheetsDir @ ascii ''Vocabulario Glide - Sustantivos.csv'') = Some substantives
        \<and> fs (spreadSheetsDir @ ascii ''Vocabulario Glide - Indeclinables.csv'')
            = Some indeclinables
       \<longrightarrow> stored_fields (ascii ''order_index'')
             (snd (up rejects_none (snd (convert_script fs)) []))
           = kept_order col_dhatu (parseCSV verbs) @ kept_order col_subanta (parseCSV substantives)
               @ kept_order col_avyaya (parseCSV indeclinables)"
    using persisted_order [of fs verbs substantives indeclinables] by blast
  have D: "row_fields (ascii ''word_devanagari'') (parseCSV_mig (verbsCSV sheet_gap))
       = [Some (ascii ''x''), Some [], Some (ascii ''y'')]"
    by (simp add: parseCSV_mig_eq reparse_sheet_gap row_fields_def reparsed_convertVerb
        cleanText_examples)
  have E: "row_fields (ascii ''order_index'') (parseCSV_mig (verbsCSV sheet_gap))
       = [Some (ascii ''1''), Some (ascii ''2''), Some (ascii ''3'')]"
    by (simp add: parseCSV_mig_eq reparse_sheet_gap row_fields_def reparsed_convertVerb s)
  show ?thesis
    by (intro conjI) (rule A B C D E up_sheets_gap)+
qed

theorem order_index_pre_filter_witness:
  "(parseCSV sheet_gap ! 1) col_dhatu = Some (ascii ''-'')
   \<and> (parseCSV_mig (verbsCSV sheet_gap) ! 1) (ascii ''order_index'') = Some (ascii ''2'')
   \<and> (parseCSV_mig (substantivesCSV sheet_gap) ! 2) (ascii ''order_index'') = Some (ascii ''3'')
   \<and> (parseCSV_mig (indeclinablesCSV sheet_gap) ! 0) (ascii ''order_index'') = Some (ascii ''1'')
   \<and> stored_fields (ascii ''order_index'')
        (snd (up rejects_none (snd (convert_script sheets_gap)) []))
       = kept_order col_dhatu (parseCSV sheet_gap) @ kept_order col_subanta (parseCSV [])
           @ kept_order col_avyaya (parseCSV [])
   \<and> kept_order col_dhatu (parseCSV sheet_gap) = [Some (Num 1), Some (Num 3)]
   \<and> kept_order col_subanta (parseCSV []) = []
   \<and> kept_order col_avyaya (parseCSV []) = []"
proof -
  note t = order_index_pre_filter [where content = sheet_gap and fs = sheets_gap
      and verbs = sheet_gap and substantives = "[]" and indeclinables = "[]"]
  have 1: "(parseCSV sheet_gap ! 1) col_dhatu = Some (ascii ''-'')"
    by (simp add: parse_sheet_gap)
  from t have all: "\<forall>i < length (parseCSV sheet_gap).
        (parseCSV_mig (verbsCSV sheet_gap) ! i) (ascii ''order_index'') = Some (String_nat (i + 1))
        \<and> (parseCSV_mig (substantivesCSV sheet_gap) ! i) (ascii ''order_index'')
            = Some (String_nat (i + 1))
        \<and> (parseCSV_mig (indeclinablesCSV sheet_gap) ! i) (ascii ''order_index'')
            = Some (String_nat (i + 1))"
    by blast
  have len: "length (parseCSV sheet_gap) = 3"
    by (simp add: parse_sheet_gap)
  from all len have 2:
    "(parseCSV_mig (verbsCSV sheet_gap) ! 1) (ascii ''order_index'') = Some (ascii ''2'')"
    "(parseCSV_mig (substantivesCSV sheet_gap) ! 2) (ascii ''order_index'') = Some (ascii ''3'')"
    "(parseCSV_mig (indeclinablesCSV sheet_gap) ! 0) (ascii ''order_index'') = Some (ascii ''1'')"
    using String_nat_small by (auto simp: numeral_3_eq_3)
  from t sheets_gap_present have 3: "stored_fields (ascii ''order_index'')
        (snd (up rejects_none (snd (convert_script sheets_gap)) []))
       = kept_order col_dhatu (parseCSV sheet_gap) @ kept_order col_subanta (parseCSV [])
           @ kept_order col_avyaya (parseCSV [])"
    by blast
  have e: "parseCSV [] = []" by (simp add: parseCSV_def split_str_def)
  have 4: "kept_order col_dhatu (parseCSV sheet_gap) = [Some (Num 1), Some (Num 3)]"
    by (simp add: parse_sheet_gap kept_order_def cleanText_examples)
  have 5: "kept_order col_subanta (parseCSV []) = []" "kept_order col_avyaya (parseCSV []) = []"
    by (simp_all add: e kept_order_def)
  from 1 2 3 4 5 show ?thesis by (intro conjI)
qed

end
